theory Spec2Isabelle
  imports Complex_Main
begin

section \<open>Data model\<close>

text \<open>
  The element type \<open>T\<close> of the templates (\<open>float\<close> or \<open>double\<close>) is idealised as
  \<open>real\<close>: rounding is not modelled. A device buffer is the list of its elements; a
  matrix buffer is the list of its rows.
\<close>

type_synonym vec = "real list"
type_synonym mat = "real list list"
type_synonym cudaStream_t = nat

text \<open>\<open>Matrix::Data<T>\<close>: a borrowed buffer and the size recorded with it.\<close>

record 'a Data =
  ptr :: 'a
  totalSize :: nat

text \<open>\<open>Matrix::RankSizePair\<close>: the owning rank of a block and its number of rows.\<close>

record RankSizePair =
  rank :: nat
  size_rsp :: nat

text \<open>
  Modelled from the spec: \<open>Matrix::PartDescriptor\<close> is declared outside the two
  \<open>*_mg.cu\<close> files. It holds the global row count \<open>M\<close>, the global column count \<open>N\<close>,
  the ordered (rank, size) pairs and the rank it was built for.
\<close>

record PartDescriptor =
  M :: nat
  N :: nat
  partsToRanks :: "RankSizePair list"
  desc_rank :: nat

text \<open>
  Modelled from the spec: \<open>PartDescriptor::blocksOwnedBy\<close> returns the ordered list of
  blocks owned by a given rank, preserving relative order.
\<close>

definition blocksOwnedBy :: "PartDescriptor \<Rightarrow> nat \<Rightarrow> RankSizePair list" where
  "blocksOwnedBy desc r = filter (\<lambda>p. rank p = r) (partsToRanks desc)"

text \<open>
  Failures of a call. \<open>NotImplemented\<close> is the fatal \<open>ASSERT(false, ...)\<close> of the
  dispatch. \<open>OutOfBounds\<close> is a read or write past the end of the named array (the last
  three are the element buffers of a block, of the coefficients and of a prediction
  block), \<open>ModuloByZero\<close> the
  remainder \<open>i % 0\<close>: both are undefined behaviour in the source. \<open>NonFinite\<close> is a
  quotient with divisor zero, whose IEEE value is infinite or NaN and so outside \<open>real\<close>.
\<close>

datatype array =
  A_streams | A_alpha | A_U_temp | A_local_blocks | A_preds | A_rank_sizes | A_input
  | A_input_block | A_coef | A_preds_block

datatype error = NotImplemented | OutOfBounds array | ModuloByZero | NonFinite

section \<open>Dense primitives\<close>

text \<open>
  Modelled from the spec: \<open>Matrix::setSmallValuesZero\<close> (in place, first \<open>len\<close> entries)
  floors to exactly zero the values below the threshold in magnitude.
\<close>

definition setSmallValuesZero :: "vec \<Rightarrow> nat \<Rightarrow> real \<Rightarrow> vec" where
  "setSmallValuesZero inout len thres =
     map (\<lambda>a. if \<bar>a\<bar> < thres then 0 else a) (take len inout) @ drop len inout"

text \<open>
  Modelled from the spec: \<open>allocate\<close>, \<open>copy\<close>, \<open>Matrix::power\<close> and
  \<open>LinAlg::addScalar\<close> are not in the two files. In \<open>ridgeSolve\<close> they form
  \<open>S_nnz = S\<^sup>2 + alpha\<close> elementwise: \<open>allocate(ptr, len, true)\<close> gives a zeroed buffer
  of \<open>len\<close> entries, \<open>copy(dst, src, len)\<close> overwrites the first \<open>len\<close> entries of
  \<open>dst\<close>, \<open>power(inout, len)\<close> squares them and \<open>addScalar(out, in, scalar, len)\<close>
  adds a scalar to them (here always with \<open>out = in\<close>).
\<close>

definition allocate :: "nat \<Rightarrow> vec" where
  "allocate len = replicate len 0"

definition copy :: "vec \<Rightarrow> vec \<Rightarrow> nat \<Rightarrow> vec" where
  "copy dst src len = take len src @ drop len dst"

definition power_sq :: "vec \<Rightarrow> nat \<Rightarrow> vec" where
  "power_sq inout len = map (\<lambda>a. a * a) (take len inout) @ drop len inout"

definition addScalar :: "vec \<Rightarrow> real \<Rightarrow> nat \<Rightarrow> vec" where
  "addScalar inout scalar len = map (\<lambda>a. a + scalar) (take len inout) @ drop len inout"

text \<open>
  Modelled from the spec: \<open>Matrix::matrixVectorBinaryDivSkipZero(data, vec, 1, n_col,
  false, true, stream, true)\<close> forms \<open>data / vec\<close> elementwise on a single row, treating
  positions where \<open>data\<close> (the floored \<open>S\<close>) is exactly zero as yielding zero rather
  than attempting the division. An attempted division by zero is \<open>None\<close>.
\<close>

definition divSkipZero :: "real \<Rightarrow> real \<Rightarrow> real option" where
  "divSkipZero a b = (if a = 0 then Some 0 else if b = 0 then None else Some (a / b))"

definition quotients :: "vec \<Rightarrow> vec \<Rightarrow> nat \<Rightarrow> real option list" where
  "quotients data v n_col = map2 divSkipZero (take n_col data) (take n_col v)"

definition matrixVectorBinaryDivSkipZero :: "vec \<Rightarrow> vec \<Rightarrow> nat \<Rightarrow> vec option" where
  "matrixVectorBinaryDivSkipZero data v n_col =
     (let qs = quotients data v n_col
      in if None \<in> set qs then None else Some (map the qs @ drop n_col data))"

text \<open>
  Modelled from the spec: \<open>Matrix::matrixVectorBinaryMult(data, vec, n_row, n_col, false,
  true, stream)\<close> scales the columns of \<open>data\<close> by \<open>vec\<close>: entry \<open>(i, j)\<close> is multiplied
  by \<open>vec[j]\<close>.
\<close>

definition matrixVectorBinaryMult :: "mat \<Rightarrow> vec \<Rightarrow> nat \<Rightarrow> nat \<Rightarrow> mat" where
  "matrixVectorBinaryMult data v n_row n_col =
     map (\<lambda>row. map2 (*) (take n_col row) (take n_col v) @ drop n_col row) (take n_row data)
       @ drop n_row data"

text \<open>
  Modelled from the spec: \<open>LinAlg::gemm(a, n_rows_a, n_cols_a, b, c, n_rows_c, 1,
  CUBLAS_OP_N, CUBLAS_OP_N, 1, 0, ...)\<close> writes the matrix-vector product of the
  \<open>n_rows_a \<times> n_cols_a\<close> matrix \<open>a\<close> with the vector \<open>b\<close> into the first
  \<open>n_rows_a\<close> entries of \<open>c\<close> (\<open>beta = 0\<close>: the old contents do not enter).
\<close>

definition dot :: "vec \<Rightarrow> vec \<Rightarrow> real" where
  "dot xs ys = sum_list (map2 (*) xs ys)"

definition gemm :: "mat \<Rightarrow> nat \<Rightarrow> nat \<Rightarrow> vec \<Rightarrow> vec \<Rightarrow> vec" where
  "gemm a n_rows_a n_cols_a b c =
     map (\<lambda>row. dot (take n_cols_a row) (take n_cols_a b)) (take n_rows_a a)
       @ drop n_rows_a c"

text \<open>
  Modelled from the spec: \<open>LinAlg::opg::mv_aTb\<close> is the matrix-vector product
  accumulation across all ranks' shards. Each rank adds up \<open>A\<^sub>p\<^sup>T b\<^sub>p\<close> over its own
  blocks (\<open>local_aTb\<close>); the communicator adds the contributions of all ranks, and every rank
  receives the total in \<open>out\<close>. The other ranks of the communicator are given by
  their blocks and label blocks (\<open>peers\<close>).
\<close>

definition vadd :: "vec \<Rightarrow> vec \<Rightarrow> vec" where
  "vadd xs ys = map2 (+) xs ys"

definition aTb :: "nat \<Rightarrow> mat \<Rightarrow> vec \<Rightarrow> vec" where
  "aTb n a b = foldr (\<lambda>(row, y) acc. vadd (map (\<lambda>x. x * y) (take n row)) acc) (zip a b) (replicate n 0)"

definition local_aTb :: "nat \<Rightarrow> mat Data list \<Rightarrow> vec Data list \<Rightarrow> vec" where
  "local_aTb n A b = foldr (\<lambda>(Ap, bp) acc. vadd (aTb n (ptr Ap) (ptr bp)) acc) (zip A b) (replicate n 0)"

type_synonym peers = "(mat Data list \<times> vec Data list) list"

definition mv_aTb :: "mat Data list \<Rightarrow> PartDescriptor \<Rightarrow> vec Data list \<Rightarrow> peers \<Rightarrow> vec" where
  "mv_aTb A ADesc b comm =
     foldr (\<lambda>(Aq, bq) acc. vadd (local_aTb (N ADesc) Aq bq) acc) ((A, b) # comm)
       (replicate (N ADesc) 0)"

section \<open>Ridge: the shrinkage solve\<close>

text \<open>
  \<open>ridgeSolve\<close> of \<open>ridge_mg.cu\<close>; the comment there reads
  \<open>w = V * inv(S^2 + \<lambda>*I) * S * U^T * b\<close>. The stages are named after the buffer each
  one leaves behind.
\<close>

definition thres :: real where
  "thres = 1 / 10 ^ 10"

definition ridgeSolve_S_floored :: "vec \<Rightarrow> PartDescriptor \<Rightarrow> vec" where
  "ridgeSolve_S_floored S UDesc = setSmallValuesZero S (N UDesc) thres"

definition ridgeSolve_S_nnz :: "vec \<Rightarrow> PartDescriptor \<Rightarrow> vec \<Rightarrow> vec" where
  "ridgeSolve_S_nnz S UDesc alpha =
     (let S1 = ridgeSolve_S_floored S UDesc;
          S_nnz = allocate (N UDesc);
          S_nnz = copy S_nnz S1 (N UDesc);
          S_nnz = power_sq S_nnz (N UDesc)
      in addScalar S_nnz (alpha ! 0) (N UDesc))"

definition ridgeSolve_S_ratio :: "vec \<Rightarrow> PartDescriptor \<Rightarrow> vec \<Rightarrow> vec option" where
  "ridgeSolve_S_ratio S UDesc alpha =
     matrixVectorBinaryDivSkipZero (ridgeSolve_S_floored S UDesc)
       (ridgeSolve_S_nnz S UDesc alpha) (N UDesc)"

definition ridgeSolve ::
  "vec \<Rightarrow> mat \<Rightarrow> mat Data list \<Rightarrow> PartDescriptor \<Rightarrow> vec Data list \<Rightarrow> vec \<Rightarrow> int \<Rightarrow> vec
     \<Rightarrow> peers \<Rightarrow> cudaStream_t list \<Rightarrow> int \<Rightarrow> error + vec" where
  "ridgeSolve S V U UDesc b alpha n_alpha w comm streams n_streams =
     (if streams = [] then Inl (OutOfBounds A_streams)
      else if alpha = [] then Inl (OutOfBounds A_alpha)
      else case ridgeSolve_S_ratio S UDesc alpha of
             None \<Rightarrow> Inl NonFinite
           | Some S2 \<Rightarrow>
               let V1 = matrixVectorBinaryMult V S2 (N UDesc) (N UDesc);
                   S_nnz = mv_aTb U UDesc b comm
               in Inr (gemm V1 (N UDesc) (N UDesc) S_nnz w))"

text \<open>
  The same statements of \<open>ridgeSolve\<close>, now with the four buffers they work on: \<open>S\<close>,
  \<open>S_nnz\<close> (not allocated at first), \<open>V\<close> and \<open>w\<close>. The result is the list of the
  buffer contents at entry and after each statement, one entry per statement from
  \<open>setSmallValuesZero\<close> to \<open>gemm\<close>; it ends after \<open>addScalar\<close> when a quotient is not
  finite.
\<close>

record solve_buffers =
  buf_S :: vec
  buf_S_nnz :: vec
  buf_V :: mat
  buf_w :: vec

definition ridgeSolve_buffers ::
  "vec \<Rightarrow> mat \<Rightarrow> mat Data list \<Rightarrow> PartDescriptor \<Rightarrow> vec Data list \<Rightarrow> vec \<Rightarrow> vec \<Rightarrow> peers
     \<Rightarrow> solve_buffers list" where
  "ridgeSolve_buffers S V U UDesc b alpha w comm =
     (let S1 = setSmallValuesZero S (N UDesc) thres;
          S_nnz1 = allocate (N UDesc);
          S_nnz2 = copy S_nnz1 S1 (N UDesc);
          S_nnz3 = power_sq S_nnz2 (N UDesc);
          S_nnz4 = addScalar S_nnz3 (alpha ! 0) (N UDesc);
          start =
            [\<lparr>buf_S = S, buf_S_nnz = [], buf_V = V, buf_w = w\<rparr>,
             \<lparr>buf_S = S1, buf_S_nnz = [], buf_V = V, buf_w = w\<rparr>,
             \<lparr>buf_S = S1, buf_S_nnz = S_nnz1, buf_V = V, buf_w = w\<rparr>,
             \<lparr>buf_S = S1, buf_S_nnz = S_nnz2, buf_V = V, buf_w = w\<rparr>,
             \<lparr>buf_S = S1, buf_S_nnz = S_nnz3, buf_V = V, buf_w = w\<rparr>,
             \<lparr>buf_S = S1, buf_S_nnz = S_nnz4, buf_V = V, buf_w = w\<rparr>]
      in case matrixVectorBinaryDivSkipZero S1 S_nnz4 (N UDesc) of
           None \<Rightarrow> start
         | Some S2 \<Rightarrow>
             let V1 = matrixVectorBinaryMult V S2 (N UDesc) (N UDesc);
                 S_nnz5 = mv_aTb U UDesc b comm;
                 w1 = gemm V1 (N UDesc) (N UDesc) S_nnz5 w
             in start @
                [\<lparr>buf_S = S2, buf_S_nnz = S_nnz4, buf_V = V, buf_w = w\<rparr>,
                 \<lparr>buf_S = S2, buf_S_nnz = S_nnz4, buf_V = V1, buf_w = w\<rparr>,
                 \<lparr>buf_S = S2, buf_S_nnz = S_nnz5, buf_V = V1, buf_w = w\<rparr>,
                 \<lparr>buf_S = S2, buf_S_nnz = S_nnz5, buf_V = V1, buf_w = w1\<rparr>])"

section \<open>Collaborators outside the two files\<close>

text \<open>
  The communicator of the handle: the rank of the caller, and, for the one collective of
  the solve, the blocks of \<open>U\<close> and of the labels that the other ranks hold when they
  reach it.
\<close>

record cumlCommunicator =
  getRank :: nat
  peer_blocks :: peers

text \<open>
  \<open>GLM::opg::preProcessData\<close>, \<open>GLM::opg::postProcessData\<close>, \<open>LinAlg::opg::svdEig\<close> and
  \<open>LinAlg::opg::lstsqEig\<close> are declared in headers outside the two files. They are
  parameters of the model, each a function of the arguments the call site passes:
  \<^item> \<open>preProcessData\<close> returns the centred data and labels and the buffers \<open>mu_input\<close>,
    \<open>mu_labels\<close>, \<open>norm2_input\<close>;
  \<^item> \<open>postProcessData\<close> returns the restored data and labels, the rescaled coefficients
    and the intercept;
  \<^item> \<open>svdEig\<close> returns the filled blocks of \<open>U\<close>, and \<open>S\<close> and \<open>V\<close>;
  \<^item> \<open>lstsqEig\<close> returns the coefficients.
\<close>

record collaborators =
  preProcessData :: "mat Data list \<Rightarrow> PartDescriptor \<Rightarrow> vec Data list \<Rightarrow> bool \<Rightarrow> bool
    \<Rightarrow> mat Data list \<times> vec Data list \<times> vec \<times> vec \<times> vec"
  postProcessData :: "mat Data list \<Rightarrow> PartDescriptor \<Rightarrow> vec Data list \<Rightarrow> vec \<Rightarrow> real
    \<Rightarrow> vec \<Rightarrow> vec \<Rightarrow> vec \<Rightarrow> bool \<Rightarrow> bool \<Rightarrow> mat Data list \<times> vec Data list \<times> vec \<times> real"
  svdEig :: "mat Data list \<Rightarrow> PartDescriptor \<Rightarrow> mat Data list \<Rightarrow> mat Data list \<times> vec \<times> mat"
  lstsqEig :: "mat Data list \<Rightarrow> PartDescriptor \<Rightarrow> vec Data list \<Rightarrow> vec \<Rightarrow> vec"

text \<open>The calls a fit makes to its collaborators and solver, in order.\<close>

datatype call = PreProcessData | LstsqEig | RidgeEig | PostProcessData

record fit_out =
  input_data_out :: "mat Data list"
  labels_out :: "vec Data list"
  coef_out :: vec
  intercept_out :: real

section \<open>Ridge fit\<close>

text \<open>
  \<open>ridgeEig\<close>: one \<open>Data\<close> per block owned by the caller is prepared for \<open>U\<close>, the
  first \<open>A.size()\<close> of them are handed to \<open>svdEig\<close>, and \<open>ridgeSolve\<close> runs on the
  factors.
\<close>

definition U_temp_of :: "RankSizePair list \<Rightarrow> nat \<Rightarrow> mat Data list" where
  "U_temp_of blocks n =
     map (\<lambda>p. \<lparr>ptr = replicate (size_rsp p) (replicate n 0), totalSize = size_rsp p\<rparr>)
       blocks"

definition ridgeEig ::
  "collaborators \<Rightarrow> cumlCommunicator \<Rightarrow> mat Data list \<Rightarrow> PartDescriptor \<Rightarrow> vec Data list
     \<Rightarrow> vec \<Rightarrow> int \<Rightarrow> vec \<Rightarrow> cudaStream_t list \<Rightarrow> int \<Rightarrow> error + vec" where
  "ridgeEig X comm A ADesc b alpha n_alpha coef streams n_streams =
     (if streams = [] then Inl (OutOfBounds A_streams)
      else
        let partsToRanks = blocksOwnedBy ADesc (getRank comm);
            U_temp = U_temp_of partsToRanks (N ADesc)
        in if length U_temp < length A then Inl (OutOfBounds A_U_temp)
           else
             let U = take (length A) U_temp;
                 (U, S, V) = svdEig X A ADesc U
             in ridgeSolve S V U ADesc b alpha n_alpha coef (peer_blocks comm) streams n_streams)"

text \<open>\<open>Ridge::opg::fit_impl\<close> with the streams given (lines 133 to 176).\<close>

definition Ridge_fit_impl_streams ::
  "collaborators \<Rightarrow> cumlCommunicator \<Rightarrow> mat Data list \<Rightarrow> PartDescriptor \<Rightarrow> vec Data list
     \<Rightarrow> vec \<Rightarrow> int \<Rightarrow> vec \<Rightarrow> real \<Rightarrow> bool \<Rightarrow> bool \<Rightarrow> int \<Rightarrow> cudaStream_t list \<Rightarrow> int
     \<Rightarrow> call list \<times> (error + fit_out)" where
  "Ridge_fit_impl_streams X comm input_data input_desc labels alpha n_alpha coef intercept
       fit_intercept normalize' algo streams n_streams =
     (if streams = [] then ([], Inl (OutOfBounds A_streams))
      else
        let (calls, input_data, labels, mu_input, mu_labels, norm2_input) =
              (if fit_intercept
               then (case preProcessData X input_data input_desc labels fit_intercept normalize' of
                       (d, l, mu) \<Rightarrow> ([PreProcessData], d, l, mu))
               else ([], input_data, labels, [], [], []))
        in if algo = 0 \<or> N input_desc = 1 then (calls, Inl NotImplemented)
           else if algo = 1 then
             (case ridgeEig X comm input_data input_desc labels alpha n_alpha coef streams
                     n_streams of
                Inl e \<Rightarrow> (calls @ [RidgeEig], Inl e)
              | Inr coef \<Rightarrow>
                  if fit_intercept then
                    (case postProcessData X input_data input_desc labels coef intercept mu_input
                            mu_labels norm2_input fit_intercept normalize' of
                       (d, l, c, i) \<Rightarrow>
                         (calls @ [RidgeEig, PostProcessData],
                          Inr \<lparr>input_data_out = d, labels_out = l, coef_out = c,
                               intercept_out = i\<rparr>))
                  else
                    (calls @ [RidgeEig],
                     Inr \<lparr>input_data_out = input_data, labels_out = labels, coef_out = coef,
                          intercept_out = 0\<rparr>))
           else (calls, Inl NotImplemented))"

text \<open>
  \<open>Ridge::opg::fit_impl\<close> as \<open>fit\<close> calls it (lines 195 to 223): one stream is created
  per block owned by the calling rank. After the inner call the streams are synchronised
  and destroyed, which changes none of the values of the model.
\<close>

definition cudaStreamCreate_all :: "nat \<Rightarrow> cudaStream_t list" where
  "cudaStreamCreate_all n_streams = [0..<n_streams]"

definition Ridge_fit_impl ::
  "collaborators \<Rightarrow> cumlCommunicator \<Rightarrow> mat Data list \<Rightarrow> PartDescriptor \<Rightarrow> vec Data list
     \<Rightarrow> vec \<Rightarrow> int \<Rightarrow> vec \<Rightarrow> real \<Rightarrow> bool \<Rightarrow> bool \<Rightarrow> int \<Rightarrow> call list \<times> (error + fit_out)" where
  "Ridge_fit_impl X comm input_data input_desc labels alpha n_alpha coef intercept
       fit_intercept normalize' algo =
     (let n_streams = length (blocksOwnedBy input_desc (getRank comm));
          streams = cudaStreamCreate_all n_streams
      in Ridge_fit_impl_streams X comm input_data input_desc labels alpha n_alpha coef intercept
           fit_intercept normalize' algo streams (int n_streams))"

section \<open>OLS fit\<close>

text \<open>\<open>OLS::opg::fit_impl\<close> with the streams given (lines 37 to 83).\<close>

definition OLS_fit_impl_streams ::
  "collaborators \<Rightarrow> cumlCommunicator \<Rightarrow> mat Data list \<Rightarrow> PartDescriptor \<Rightarrow> vec Data list
     \<Rightarrow> vec \<Rightarrow> real \<Rightarrow> bool \<Rightarrow> bool \<Rightarrow> int \<Rightarrow> cudaStream_t list \<Rightarrow> int
     \<Rightarrow> call list \<times> (error + fit_out)" where
  "OLS_fit_impl_streams X comm input_data input_desc labels coef intercept
       fit_intercept normalize' algo streams n_streams =
     (if streams = [] then ([], Inl (OutOfBounds A_streams))
      else
        let (calls, input_data, labels, mu_input, mu_labels, norm2_input) =
              (if fit_intercept
               then (case preProcessData X input_data input_desc labels fit_intercept normalize' of
                       (d, l, mu) \<Rightarrow> ([PreProcessData], d, l, mu))
               else ([], input_data, labels, [], [], []))
        in if algo = 0 \<or> N input_desc = 1 then (calls, Inl NotImplemented)
           else if algo = 1 then
             (let coef = lstsqEig X input_data input_desc labels coef
              in if fit_intercept then
                   (case postProcessData X input_data input_desc labels coef intercept mu_input
                           mu_labels norm2_input fit_intercept normalize' of
                      (d, l, c, i) \<Rightarrow>
                        (calls @ [LstsqEig, PostProcessData],
                         Inr \<lparr>input_data_out = d, labels_out = l, coef_out = c,
                              intercept_out = i\<rparr>))
                 else
                   (calls @ [LstsqEig],
                    Inr \<lparr>input_data_out = input_data, labels_out = labels, coef_out = coef,
                         intercept_out = 0\<rparr>))
           else (calls, Inl NotImplemented))"

text \<open>\<open>OLS::opg::fit_impl\<close> as \<open>fit\<close> calls it (lines 98 to 123).\<close>

definition OLS_fit_impl ::
  "collaborators \<Rightarrow> cumlCommunicator \<Rightarrow> mat Data list \<Rightarrow> PartDescriptor \<Rightarrow> vec Data list
     \<Rightarrow> vec \<Rightarrow> real \<Rightarrow> bool \<Rightarrow> bool \<Rightarrow> int \<Rightarrow> call list \<times> (error + fit_out)" where
  "OLS_fit_impl X comm input_data input_desc labels coef intercept fit_intercept normalize' algo =
     (let n_streams = length (blocksOwnedBy input_desc (getRank comm));
          streams = cudaStreamCreate_all n_streams
      in OLS_fit_impl_streams X comm input_data input_desc labels coef intercept
           fit_intercept normalize' algo streams (int n_streams))"

section \<open>Predict\<close>

text \<open>
  \<open>predict_impl\<close> has the same text in \<open>ols_mg.cu\<close> and \<open>ridge_mg.cu\<close>, and
  \<open>OLS::opg::predict\<close> and \<open>Ridge::opg::predict\<close> only call it: one model serves both.
  The state of the loop is the prediction buffers and the kernels issued so far, each with
  its stream.
\<close>

datatype kernel = Gemm nat | AddScalar nat

record predict_state =
  preds_of :: "vec Data list"
  issued :: "(cudaStream_t \<times> kernel) list"

text \<open>
  \<open>i % n_streams\<close> on C++ \<open>int\<close>s with \<open>i \<ge> 0\<close>: the remainder has the sign of \<open>i\<close>.
\<close>

definition stream_index :: "nat \<Rightarrow> int \<Rightarrow> nat" where
  "stream_index i n_streams = nat (int i mod \<bar>n_streams\<bar>)"

text \<open>
  The body of the loop for block \<open>i\<close> (lines 136 to 143 and 236 to 243). \<open>gemm\<close> reads
  \<open>size\<close> rows of \<open>N\<close> entries from \<open>input_data[i]->ptr\<close> and \<open>N\<close> entries of \<open>coef\<close>
  and writes \<open>size\<close> entries of \<open>preds[i]->ptr\<close>, where \<open>size\<close> is \<open>local_blocks[i]->size\<close>;
  \<open>addScalar\<close> rewrites the same \<open>size\<close> entries. A buffer too short for that is overrun
  in the source: here it is the error \<open>OutOfBounds\<close> of that buffer.
\<close>

definition predict_block ::
  "mat Data list \<Rightarrow> PartDescriptor \<Rightarrow> vec \<Rightarrow> real \<Rightarrow> cudaStream_t list \<Rightarrow> int \<Rightarrow> nat
     \<Rightarrow> predict_state \<Rightarrow> error + predict_state" where
  "predict_block input_data input_desc coef intercept streams n_streams i st =
     (let local_blocks = partsToRanks input_desc
      in if n_streams = 0 then Inl ModuloByZero
         else
           let si = stream_index i n_streams
           in if length local_blocks \<le> i then Inl (OutOfBounds A_local_blocks)
              else if length (preds_of st) \<le> i then Inl (OutOfBounds A_preds)
              else if length streams \<le> si then Inl (OutOfBounds A_streams)
              else
                let sz = size_rsp (local_blocks ! i)
                in if length (ptr (input_data ! i)) < sz then Inl (OutOfBounds A_input_block)
                   else if list_ex (\<lambda>row. length row < N input_desc)
                             (take sz (ptr (input_data ! i)))
                   then Inl (OutOfBounds A_input_block)
                   else if 0 < sz \<and> length coef < N input_desc then Inl (OutOfBounds A_coef)
                   else if length (ptr (preds_of st ! i)) < sz then Inl (OutOfBounds A_preds_block)
                   else
                     let p = gemm (ptr (input_data ! i)) sz (N input_desc) coef
                               (ptr (preds_of st ! i));
                         p = addScalar p intercept sz
                     in Inr \<lparr>preds_of = (preds_of st)[i := (preds_of st ! i)\<lparr>ptr := p\<rparr>],
                             issued = issued st
                               @ [(streams ! si, Gemm i), (streams ! si, AddScalar i)]\<rparr>)"

fun predict_loop ::
  "mat Data list \<Rightarrow> PartDescriptor \<Rightarrow> vec \<Rightarrow> real \<Rightarrow> cudaStream_t list \<Rightarrow> int \<Rightarrow> nat list
     \<Rightarrow> predict_state \<Rightarrow> error + predict_state" where
  "predict_loop input_data input_desc coef intercept streams n_streams [] st = Inr st"
| "predict_loop input_data input_desc coef intercept streams n_streams (i # is) st =
     (case predict_block input_data input_desc coef intercept streams n_streams i st of
        Inl e \<Rightarrow> Inl e
      | Inr st' \<Rightarrow> predict_loop input_data input_desc coef intercept streams n_streams is st')"

text \<open>\<open>predict_impl\<close> with the streams given (lines 125 to 145 and 225 to 245).\<close>

definition predict_impl_streams ::
  "mat Data list \<Rightarrow> PartDescriptor \<Rightarrow> vec \<Rightarrow> real \<Rightarrow> vec Data list \<Rightarrow> cudaStream_t list \<Rightarrow> int
     \<Rightarrow> error + predict_state" where
  "predict_impl_streams input_data input_desc coef intercept preds streams n_streams =
     predict_loop input_data input_desc coef intercept streams n_streams
       [0..<length input_data] \<lparr>preds_of = preds, issued = []\<rparr>"

text \<open>
  \<open>predict_impl\<close> as \<open>predict\<close> calls it (lines 147 to 177 and 247 to 277): the first
  \<open>n_parts\<close> entries of the three arrays are taken, and \<open>n_parts\<close> streams are created.
  The entries of \<open>preds\<close> past \<open>n_parts\<close> are not touched.
\<close>

definition predict_impl ::
  "cumlCommunicator \<Rightarrow> RankSizePair list \<Rightarrow> nat \<Rightarrow> mat Data list \<Rightarrow> nat \<Rightarrow> nat \<Rightarrow> vec \<Rightarrow> real
     \<Rightarrow> vec Data list \<Rightarrow> error + predict_state" where
  "predict_impl comm rank_sizes n_parts input n_rows n_cols coef intercept preds =
     (if length rank_sizes < n_parts then Inl (OutOfBounds A_rank_sizes)
      else if length input < n_parts then Inl (OutOfBounds A_input)
      else if length preds < n_parts then Inl (OutOfBounds A_preds)
      else
        let ranksAndSizes = take n_parts rank_sizes;
            input_data = take n_parts input;
            input_desc = \<lparr>M = n_rows, N = n_cols, partsToRanks = ranksAndSizes,
                          desc_rank = getRank comm\<rparr>;
            preds_data = take n_parts preds;
            n_streams = n_parts;
            streams = cudaStreamCreate_all n_streams
        in case predict_impl_streams input_data input_desc coef intercept preds_data streams
                  (int n_streams) of
             Inl e \<Rightarrow> Inl e
           | Inr st \<Rightarrow> Inr (st\<lparr>preds_of := preds_of st @ drop n_parts preds\<rparr>))"

section \<open>Notions used to state the properties\<close>

subsection \<open>The shrinkage solve in closed form\<close>

text \<open>
  A block of \<open>U\<close> and its label block fit together when they have the same number of
  rows and every row has \<open>n\<close> entries; the factors \<open>S\<close> and \<open>V\<close> are well shaped when
  \<open>S\<close> has \<open>n\<close> entries and \<open>V\<close> is \<open>n \<times> n\<close>.
\<close>

definition wf_block :: "nat \<Rightarrow> mat Data \<Rightarrow> vec Data \<Rightarrow> bool" where
  "wf_block n u y \<longleftrightarrow> length (ptr u) = length (ptr y) \<and> (\<forall>row\<in>set (ptr u). length row = n)"

definition wf_rank :: "nat \<Rightarrow> mat Data list \<times> vec Data list \<Rightarrow> bool" where
  "wf_rank n q \<longleftrightarrow> list_all2 (wf_block n) (fst q) (snd q)"

definition wf_factors :: "nat \<Rightarrow> vec \<Rightarrow> mat \<Rightarrow> bool" where
  "wf_factors n S V \<longleftrightarrow> length S = n \<and> length V = n \<and> (\<forall>row\<in>set V. length row = n)"

text \<open>The global matrix and label vector: the rows of all blocks of all ranks.\<close>

definition rows_of :: "(mat Data list \<times> vec Data list) list \<Rightarrow> mat" where
  "rows_of ranks = concat (map (\<lambda>q. concat (map ptr (fst q))) ranks)"

definition labels_of :: "(mat Data list \<times> vec Data list) list \<Rightarrow> vec" where
  "labels_of ranks = concat (map (\<lambda>q. concat (map ptr (snd q))) ranks)"

text \<open>\<open>U\<^sup>T b\<close>, and \<open>V diag(r) x\<close>, entry by entry.\<close>

definition UTb :: "nat \<Rightarrow> mat \<Rightarrow> vec \<Rightarrow> vec" where
  "UTb n U b = map (\<lambda>j. \<Sum>k<length U. U ! k ! j * b ! k) [0..<n]"

definition V_diag_x :: "nat \<Rightarrow> mat \<Rightarrow> (nat \<Rightarrow> real) \<Rightarrow> vec \<Rightarrow> vec" where
  "V_diag_x n V r x = map (\<lambda>i. \<Sum>j<n. V ! i ! j * r j * x ! j) [0..<n]"

text \<open>\<open>V diag(r)\<close>: the matrix \<open>V\<close> with column \<open>j\<close> scaled by \<open>r\<^sub>j\<close>.\<close>

definition V_diag :: "nat \<Rightarrow> mat \<Rightarrow> (nat \<Rightarrow> real) \<Rightarrow> mat" where
  "V_diag n V r = map (\<lambda>i. map (\<lambda>j. V ! i ! j * r j) [0..<n]) [0..<n]"

text \<open>
  The shrinkage factor \<open>s / (s\<^sup>2 + \<alpha>)\<close> of the closed-form ridge solution, and the factor
  with the floor at \<open>1e-10\<close>.
\<close>

definition shrinkage :: "real \<Rightarrow> real \<Rightarrow> real" where
  "shrinkage s a = s / (s\<^sup>2 + a)"

definition floored_shrinkage :: "real \<Rightarrow> real \<Rightarrow> real" where
  "floored_shrinkage s a = (if \<bar>s\<bar> < thres then 0 else s / (s\<^sup>2 + a))"

text \<open>No singular value that survives the floor meets a zero divisor.\<close>

definition shrinkage_defined :: "nat \<Rightarrow> vec \<Rightarrow> real \<Rightarrow> bool" where
  "shrinkage_defined n S a \<longleftrightarrow> (\<forall>j<n. \<not> \<bar>S ! j\<bar> < thres \<longrightarrow> (S ! j)\<^sup>2 + a \<noteq> 0)"

text \<open>Auxiliary: one column of \<open>A\<^sup>T b\<close>, and the sum over a list of ranks.\<close>

definition col_dot :: "nat \<Rightarrow> mat \<Rightarrow> vec \<Rightarrow> real" where
  "col_dot j a b = sum_list (map2 (\<lambda>row y. row ! j * y) a b)"

definition all_aTb :: "nat \<Rightarrow> (mat Data list \<times> vec Data list) list \<Rightarrow> vec" where
  "all_aTb n ranks = foldr (\<lambda>(Aq, bq) acc. vadd (local_aTb n Aq bq) acc) ranks (replicate n 0)"

subsection \<open>Predictions row by row\<close>

text \<open>The prediction of one row: its product with the coefficients, plus the intercept.\<close>

definition row_prediction :: "nat \<Rightarrow> vec \<Rightarrow> real \<Rightarrow> vec \<Rightarrow> real" where
  "row_prediction n coef intercept row = (\<Sum>j<n. row ! j * coef ! j) + intercept"

text \<open>What the loop body leaves in \<open>preds[i]\<close>, and the kernels it issues.\<close>

definition block_out ::
  "mat Data list \<Rightarrow> PartDescriptor \<Rightarrow> vec \<Rightarrow> real \<Rightarrow> vec Data list \<Rightarrow> nat \<Rightarrow> vec Data" where
  "block_out input_data input_desc coef intercept preds i =
     (preds ! i)\<lparr>ptr :=
        addScalar (gemm (ptr (input_data ! i)) (size_rsp (partsToRanks input_desc ! i))
                     (N input_desc) coef (ptr (preds ! i)))
          intercept (size_rsp (partsToRanks input_desc ! i))\<rparr>"

definition issue :: "cudaStream_t list \<Rightarrow> int \<Rightarrow> nat \<Rightarrow> (cudaStream_t \<times> kernel) list" where
  "issue streams n_streams i =
     [(streams ! stream_index i n_streams, Gemm i), (streams ! stream_index i n_streams, AddScalar i)]"

text \<open>The element buffers of block \<open>i\<close> are large enough for the loop body.\<close>

definition block_in_bounds ::
  "mat Data list \<Rightarrow> PartDescriptor \<Rightarrow> vec \<Rightarrow> vec Data list \<Rightarrow> nat \<Rightarrow> bool" where
  "block_in_bounds input_data input_desc coef preds i \<longleftrightarrow>
     size_rsp (partsToRanks input_desc ! i) \<le> length (ptr (input_data ! i)) \<and>
     list_all (\<lambda>row. N input_desc \<le> length row)
       (take (size_rsp (partsToRanks input_desc ! i)) (ptr (input_data ! i))) \<and>
     (0 < size_rsp (partsToRanks input_desc ! i) \<longrightarrow> N input_desc \<le> length coef) \<and>
     size_rsp (partsToRanks input_desc ! i) \<le> length (ptr (preds ! i))"

text \<open>
  The rows of block \<open>i\<close>, and what a predict call leaves in \<open>preds[i]\<close>, row by
  row.
\<close>

definition block_rows :: "RankSizePair list \<Rightarrow> mat Data list \<Rightarrow> nat \<Rightarrow> mat" where
  "block_rows rank_sizes input i = take (size_rsp (rank_sizes ! i)) (ptr (input ! i))"

definition predicted ::
  "RankSizePair list \<Rightarrow> mat Data list \<Rightarrow> nat \<Rightarrow> vec \<Rightarrow> real \<Rightarrow> vec Data list \<Rightarrow> nat
     \<Rightarrow> vec Data" where
  "predicted rank_sizes input n_cols coef intercept preds i =
     (preds ! i)\<lparr>ptr := map (row_prediction n_cols coef intercept) (block_rows rank_sizes input i)
                          @ drop (size_rsp (rank_sizes ! i)) (ptr (preds ! i))\<rparr>"

text \<open>
  The arrays of a predict call are well formed when they have \<open>n_parts\<close> entries, every
  input block holds the rows its pair announces, each of \<open>n_cols\<close> entries, every
  prediction buffer has room for them, and there are \<open>n_cols\<close> coefficients.
\<close>

definition wf_predict ::
  "RankSizePair list \<Rightarrow> nat \<Rightarrow> mat Data list \<Rightarrow> nat \<Rightarrow> vec \<Rightarrow> vec Data list \<Rightarrow> bool" where
  "wf_predict rank_sizes n_parts input n_cols coef preds \<longleftrightarrow>
     n_parts \<le> length rank_sizes \<and> n_parts \<le> length input \<and> n_parts \<le> length preds \<and>
     length coef = n_cols \<and>
     (\<forall>i<n_parts. size_rsp (rank_sizes ! i) \<le> length (ptr (input ! i)) \<and>
                  size_rsp (rank_sizes ! i) \<le> length (ptr (preds ! i)) \<and>
                  (\<forall>row\<in>set (take (size_rsp (rank_sizes ! i)) (ptr (input ! i))).
                     length row = n_cols))"

text \<open>The rows a layout presents, and the predictions written for them, in global order.\<close>

definition global_rows :: "RankSizePair list \<Rightarrow> nat \<Rightarrow> mat Data list \<Rightarrow> mat" where
  "global_rows rank_sizes n_parts input = concat (map (block_rows rank_sizes input) [0..<n_parts])"

definition global_preds :: "RankSizePair list \<Rightarrow> nat \<Rightarrow> vec Data list \<Rightarrow> vec" where
  "global_preds rank_sizes n_parts preds =
     concat (map (\<lambda>i. take (size_rsp (rank_sizes ! i)) (ptr (preds ! i))) [0..<n_parts])"

section \<open>Example inputs\<close>

text \<open>
  Two ranks, one block of one row each, two features. The design matrix is
  \<open>diag(1, 1e-11)\<close>, so that \<open>U = V = I\<close> and \<open>S = (1, 1e-11)\<close>; the labels are
  \<open>(1, 1)\<close>. Rank 0 is the caller.
\<close>

definition ex_desc :: PartDescriptor where
  "ex_desc = \<lparr>M = 2, N = 2,
              partsToRanks = [\<lparr>rank = 0, size_rsp = 1\<rparr>, \<lparr>rank = 1, size_rsp = 1\<rparr>],
              desc_rank = 0\<rparr>"

definition ex_A :: "mat Data list" where
  "ex_A = [\<lparr>ptr = [[1, 0]], totalSize = 1\<rparr>]"

definition ex_b :: "vec Data list" where
  "ex_b = [\<lparr>ptr = [1], totalSize = 1\<rparr>]"

definition ex_U :: "mat Data list" where
  "ex_U = [\<lparr>ptr = [[1, 0]], totalSize = 1\<rparr>]"

definition ex_S :: vec where
  "ex_S = [1, 1 / 10 ^ 11]"

definition ex_V :: mat where
  "ex_V = [[1, 0], [0, 1]]"

definition ex_comm :: cumlCommunicator where
  "ex_comm = \<lparr>getRank = 0,
              peer_blocks = [([\<lparr>ptr = [[0, 1]], totalSize = 1\<rparr>], [\<lparr>ptr = [1], totalSize = 1\<rparr>])]\<rparr>"

text \<open>
  Stand-ins for the collaborators: preprocessing and postprocessing that change nothing,
  the factors above, and the least-squares solution \<open>(1, 1e11)\<close>.
\<close>

definition ex_X :: collaborators where
  "ex_X = \<lparr>preProcessData = (\<lambda>d desc l fi nm. (d, l, [0, 0], [0], [])),
           postProcessData = (\<lambda>d desc l c i mu_i mu_l n2 fi nm. (d, l, c, 0)),
           svdEig = (\<lambda>A desc U. (ex_U, ex_S, ex_V)),
           lstsqEig = (\<lambda>d desc l c. [1, 10 ^ 11])\<rparr>"

text \<open>
  A descriptor with no column and one with a single column, each with a block for it, and a
  descriptor where rank 0 owns nothing.
\<close>

definition ex_A_N0 :: "mat Data list" where
  "ex_A_N0 = [\<lparr>ptr = [[]], totalSize = 1\<rparr>]"

definition ex_desc_N0 :: PartDescriptor where
  "ex_desc_N0 = \<lparr>M = 1, N = 0, partsToRanks = [\<lparr>rank = 0, size_rsp = 1\<rparr>], desc_rank = 0\<rparr>"

definition ex_desc_N1 :: PartDescriptor where
  "ex_desc_N1 = \<lparr>M = 1, N = 1, partsToRanks = [\<lparr>rank = 0, size_rsp = 1\<rparr>], desc_rank = 0\<rparr>"

definition ex_A_N1 :: "mat Data list" where
  "ex_A_N1 = [\<lparr>ptr = [[1]], totalSize = 1\<rparr>]"

definition ex_desc_other :: PartDescriptor where
  "ex_desc_other = \<lparr>M = 2, N = 2, partsToRanks = [\<lparr>rank = 1, size_rsp = 2\<rparr>], desc_rank = 0\<rparr>"

text \<open>
  A predict call on rank 0 whose single block is recorded as owned by rank 1, and the same
  three rows in two layouts.
\<close>

definition ex_rank_sizes :: "RankSizePair list" where
  "ex_rank_sizes = [\<lparr>rank = 1, size_rsp = 1\<rparr>]"

definition ex_input :: "mat Data list" where
  "ex_input = [\<lparr>ptr = [[2, 0]], totalSize = 1\<rparr>]"

definition ex_preds :: "vec Data list" where
  "ex_preds = [\<lparr>ptr = [0], totalSize = 1\<rparr>]"

definition ex_sizes1 :: "RankSizePair list" where
  "ex_sizes1 = [\<lparr>rank = 0, size_rsp = 1\<rparr>, \<lparr>rank = 0, size_rsp = 2\<rparr>]"

definition ex_input1 :: "mat Data list" where
  "ex_input1 = [\<lparr>ptr = [[1, 2]], totalSize = 1\<rparr>, \<lparr>ptr = [[3, 4], [5, 6]], totalSize = 2\<rparr>]"

definition ex_preds1 :: "vec Data list" where
  "ex_preds1 = [\<lparr>ptr = [0], totalSize = 1\<rparr>, \<lparr>ptr = [0, 0], totalSize = 2\<rparr>]"

definition ex_desc1 :: PartDescriptor where
  "ex_desc1 = \<lparr>M = 3, N = 2, partsToRanks = ex_sizes1, desc_rank = 0\<rparr>"

definition ex_sizes2 :: "RankSizePair list" where
  "ex_sizes2 = [\<lparr>rank = 0, size_rsp = 3\<rparr>]"

definition ex_input2 :: "mat Data list" where
  "ex_input2 = [\<lparr>ptr = [[1, 2], [3, 4], [5, 6]], totalSize = 3\<rparr>]"

definition ex_preds2 :: "vec Data list" where
  "ex_preds2 = [\<lparr>ptr = [9, 9, 9], totalSize = 3\<rparr>]"

section \<open>Auxiliary facts\<close>

subsection \<open>Streams\<close>

lemma ridgeSolve_streams_ok:
  "streams \<noteq> [] \<Longrightarrow>
   ridgeSolve S V U UDesc b alpha n_alpha w comm streams n_streams \<noteq> Inl (OutOfBounds A_streams)"
  by (simp add: ridgeSolve_def Let_def split: option.splits)

lemma ridgeEig_streams_ok:
  "streams \<noteq> [] \<Longrightarrow>
   ridgeEig X comm A ADesc b alpha n_alpha coef streams n_streams \<noteq> Inl (OutOfBounds A_streams)"
  by (simp add: ridgeEig_def Let_def ridgeSolve_streams_ok split: prod.splits)

lemma cudaStreamCreate_all_Nil: "cudaStreamCreate_all n = [] \<longleftrightarrow> n = 0"
  by (simp add: cudaStreamCreate_all_def)

lemma streams_of_owner:
  "blocksOwnedBy input_desc r \<noteq> [] \<Longrightarrow>
   cudaStreamCreate_all (length (blocksOwnedBy input_desc r)) \<noteq> []"
  by (simp add: cudaStreamCreate_all_Nil)

subsection \<open>The reduction over blocks and ranks\<close>

lemma length_vadd: "length (vadd xs ys) = min (length xs) (length ys)"
  by (simp add: vadd_def)

lemma nth_vadd: "i < length xs \<Longrightarrow> i < length ys \<Longrightarrow> vadd xs ys ! i = xs ! i + ys ! i"
  by (simp add: vadd_def)

lemma length_aTb: "\<forall>row\<in>set a. n \<le> length row \<Longrightarrow> length (aTb n a b) = n"
proof (induction a arbitrary: b)
  case Nil
  then show ?case by (simp add: aTb_def)
next
  case (Cons row a)
  show ?case
  proof (cases b)
    case Nil
    then show ?thesis by (simp add: aTb_def)
  next
    case (Cons y ys)
    have "length (aTb n a ys) = n" using Cons.IH Cons.prems by simp
    moreover have "n \<le> length row" using Cons.prems by simp
    ultimately show ?thesis using Cons
      by (simp add: aTb_def length_vadd)
  qed
qed

lemma nth_aTb:
  "\<forall>row\<in>set a. n \<le> length row \<Longrightarrow> j < n \<Longrightarrow> aTb n a b ! j = col_dot j a b"
proof (induction a arbitrary: b)
  case Nil
  then show ?case by (simp add: aTb_def col_dot_def)
next
  case (Cons row a)
  show ?case
  proof (cases b)
    case Nil
    then show ?thesis using Cons.prems by (simp add: aTb_def col_dot_def)
  next
    case (Cons y ys)
    have len: "length (aTb n a ys) = n" using Cons.prems by (simp add: length_aTb)
    have ih: "aTb n a ys ! j = col_dot j a ys" using Cons.IH Cons.prems by simp
    have "aTb n (row # a) (y # ys) = vadd (map (\<lambda>x. x * y) (take n row)) (aTb n a ys)"
      by (simp add: aTb_def)
    then show ?thesis using Cons Cons.prems len ih
      by (simp add: nth_vadd col_dot_def)
  qed
qed

lemma length_local_aTb: "list_all2 (wf_block n) A b \<Longrightarrow> length (local_aTb n A b) = n"
proof (induction rule: list_all2_induct)
  case Nil
  then show ?case by (simp add: local_aTb_def)
next
  case (Cons u A y b)
  have "length (aTb n (ptr u) (ptr y)) = n"
    using Cons.hyps(1) by (intro length_aTb) (simp add: wf_block_def)
  then show ?case using Cons.IH by (simp add: local_aTb_def length_vadd)
qed

lemma col_dot_append:
  "length a = length b \<Longrightarrow> col_dot j (a @ a') (b @ b') = col_dot j a b + col_dot j a' b'"
  by (simp add: col_dot_def)

lemma nth_local_aTb:
  "list_all2 (wf_block n) A b \<Longrightarrow> j < n \<Longrightarrow>
   local_aTb n A b ! j = col_dot j (concat (map ptr A)) (concat (map ptr b))"
proof (induction rule: list_all2_induct)
  case Nil
  then show ?case by (simp add: local_aTb_def col_dot_def)
next
  case (Cons u A y b)
  have wf: "length (ptr u) = length (ptr y)" "\<forall>row\<in>set (ptr u). n \<le> length row"
    using Cons.hyps(1) by (simp_all add: wf_block_def)
  have l1: "length (aTb n (ptr u) (ptr y)) = n" using wf by (simp add: length_aTb)
  have l2: "length (local_aTb n A b) = n" using Cons.hyps(2) by (rule length_local_aTb)
  have "local_aTb n (u # A) (y # b) = vadd (aTb n (ptr u) (ptr y)) (local_aTb n A b)"
    by (simp add: local_aTb_def)
  then show ?case using Cons.IH Cons.prems l1 l2 wf
    by (simp add: nth_vadd nth_aTb col_dot_append)
qed

lemma length_concat_blocks:
  "list_all2 (wf_block n) A b \<Longrightarrow> length (concat (map ptr A)) = length (concat (map ptr b))"
  by (induction rule: list_all2_induct) (simp_all add: wf_block_def)

lemma all_aTb_props:
  "\<forall>q\<in>set ranks. wf_rank n q \<Longrightarrow>
   length (all_aTb n ranks) = n \<and>
   (\<forall>j<n. all_aTb n ranks ! j = col_dot j (rows_of ranks) (labels_of ranks))"
proof (induction ranks)
  case Nil
  then show ?case by (simp add: all_aTb_def rows_of_def labels_of_def col_dot_def)
next
  case (Cons q ranks)
  obtain Aq bq where q: "q = (Aq, bq)" by (cases q)
  have wfq: "list_all2 (wf_block n) Aq bq" using Cons.prems q by (simp add: wf_rank_def)
  have ih: "length (all_aTb n ranks) = n"
    "\<forall>j<n. all_aTb n ranks ! j = col_dot j (rows_of ranks) (labels_of ranks)"
    using Cons.IH Cons.prems by simp_all
  have l1: "length (local_aTb n Aq bq) = n" using wfq by (rule length_local_aTb)
  have step: "all_aTb n (q # ranks) = vadd (local_aTb n Aq bq) (all_aTb n ranks)"
    by (simp add: all_aTb_def q)
  have len: "length (concat (map ptr Aq)) = length (concat (map ptr bq))"
    using wfq by (rule length_concat_blocks)
  have "\<forall>j<n. all_aTb n (q # ranks) ! j = col_dot j (rows_of (q # ranks)) (labels_of (q # ranks))"
  proof (intro allI impI)
    fix j assume j: "j < n"
    have "all_aTb n (q # ranks) ! j = local_aTb n Aq bq ! j + all_aTb n ranks ! j"
      using step l1 ih(1) j by (simp add: nth_vadd)
    also have "\<dots> = col_dot j (concat (map ptr Aq)) (concat (map ptr bq))
                    + col_dot j (rows_of ranks) (labels_of ranks)"
      using nth_local_aTb[OF wfq j] ih(2) j by simp
    also have "\<dots> = col_dot j (rows_of (q # ranks)) (labels_of (q # ranks))"
      using len by (simp add: rows_of_def labels_of_def q col_dot_append)
    finally show "all_aTb n (q # ranks) ! j = col_dot j (rows_of (q # ranks)) (labels_of (q # ranks))" .
  qed
  moreover have "length (all_aTb n (q # ranks)) = n"
    using step l1 ih(1) by (simp add: length_vadd)
  ultimately show ?case by simp
qed

lemma mv_aTb_all: "mv_aTb A ADesc b comm = all_aTb (N ADesc) ((A, b) # comm)"
  by (simp add: mv_aTb_def all_aTb_def)

lemma col_dot_sum:
  "length a = length b \<Longrightarrow> col_dot j a b = (\<Sum>k<length a. a ! k ! j * b ! k)"
proof -
  assume len: "length a = length b"
  have "col_dot j a b = (\<Sum>k = 0..<length (map2 (\<lambda>row y. row ! j * y) a b). map2 (\<lambda>row y. row ! j * y) a b ! k)"
    unfolding col_dot_def by (rule sum_list_sum_nth)
  also have "\<dots> = (\<Sum>k = 0..<length a. a ! k ! j * b ! k)"
    using len by (intro sum.cong) simp_all
  finally show ?thesis by (simp add: atLeast0LessThan)
qed

lemma length_rows_labels:
  "\<forall>q\<in>set ranks. wf_rank n q \<Longrightarrow> length (rows_of ranks) = length (labels_of ranks)"
proof (induction ranks)
  case Nil
  then show ?case by (simp add: rows_of_def labels_of_def)
next
  case (Cons q ranks)
  have "length (concat (map ptr (fst q))) = length (concat (map ptr (snd q)))"
    using Cons.prems by (intro length_concat_blocks[of n]) (simp add: wf_rank_def)
  moreover have "length (rows_of ranks) = length (labels_of ranks)"
    using Cons.IH Cons.prems by simp
  ultimately show ?case by (simp add: rows_of_def labels_of_def)
qed

lemma mv_aTb_UTb:
  assumes "\<forall>q\<in>set ((U, b) # comm). wf_rank (N UDesc) q"
  shows "mv_aTb U UDesc b comm
         = UTb (N UDesc) (rows_of ((U, b) # comm)) (labels_of ((U, b) # comm))"
proof (rule nth_equalityI)
  note props = all_aTb_props[OF assms]
  show "length (mv_aTb U UDesc b comm)
        = length (UTb (N UDesc) (rows_of ((U, b) # comm)) (labels_of ((U, b) # comm)))"
    using props by (simp add: mv_aTb_all UTb_def)
  fix j assume "j < length (mv_aTb U UDesc b comm)"
  then have j: "j < N UDesc" using props by (simp add: mv_aTb_all)
  have len: "length (rows_of ((U, b) # comm)) = length (labels_of ((U, b) # comm))"
    using assms by (rule length_rows_labels)
  show "mv_aTb U UDesc b comm ! j
        = UTb (N UDesc) (rows_of ((U, b) # comm)) (labels_of ((U, b) # comm)) ! j"
    using props j len by (simp add: mv_aTb_all UTb_def col_dot_sum)
qed

subsection \<open>The shrinkage ratio\<close>

lemma thres_pos: "0 < thres"
  by (simp add: thres_def)

lemma nth_inplace:
  "j < n \<Longrightarrow> j < length xs \<Longrightarrow> (map f (take n xs) @ drop n xs) ! j = f (xs ! j)"
  by (simp add: nth_append)

lemma S_floored_eq:
  "length S = N UDesc \<Longrightarrow>
   ridgeSolve_S_floored S UDesc = map (\<lambda>s. if \<bar>s\<bar> < thres then 0 else s) S"
  by (simp add: ridgeSolve_S_floored_def setSmallValuesZero_def)

lemma S_nnz_eq:
  "length S = N UDesc \<Longrightarrow>
   ridgeSolve_S_nnz S UDesc alpha
   = map (\<lambda>s. (if \<bar>s\<bar> < thres then 0 else s) * (if \<bar>s\<bar> < thres then 0 else s) + alpha ! 0) S"
  by (simp add: ridgeSolve_S_nnz_def S_floored_eq allocate_def copy_def power_sq_def
      addScalar_def Let_def o_def)

lemma quotients_eq:
  "length S = N UDesc \<Longrightarrow>
   quotients (ridgeSolve_S_floored S UDesc) (ridgeSolve_S_nnz S UDesc alpha) (N UDesc)
   = map (\<lambda>s. divSkipZero (if \<bar>s\<bar> < thres then 0 else s)
                 ((if \<bar>s\<bar> < thres then 0 else s) * (if \<bar>s\<bar> < thres then 0 else s) + alpha ! 0)) S"
  by (simp add: quotients_def S_floored_eq S_nnz_eq zip_map_map zip_same_conv_map o_def)

lemma divSkipZero_floored:
  assumes "\<not> \<bar>s\<bar> < thres \<longrightarrow> s\<^sup>2 + a \<noteq> 0"
  shows "divSkipZero (if \<bar>s\<bar> < thres then 0 else s)
           ((if \<bar>s\<bar> < thres then 0 else s) * (if \<bar>s\<bar> < thres then 0 else s) + a)
         = Some (floored_shrinkage s a)"
proof (cases "\<bar>s\<bar> < thres")
  case True
  then show ?thesis by (simp add: divSkipZero_def floored_shrinkage_def)
next
  case False
  then have "s \<noteq> 0" using thres_pos by auto
  moreover have "s * s + a \<noteq> 0" using assms False by (simp add: power2_eq_square)
  ultimately show ?thesis using False
    by (simp add: divSkipZero_def floored_shrinkage_def power2_eq_square)
qed

lemma S_ratio_eq:
  assumes "length S = N UDesc" and "shrinkage_defined (N UDesc) S (alpha ! 0)"
  shows "ridgeSolve_S_ratio S UDesc alpha
         = Some (map (\<lambda>s. floored_shrinkage s (alpha ! 0)) S)"
proof -
  have q: "quotients (ridgeSolve_S_floored S UDesc) (ridgeSolve_S_nnz S UDesc alpha) (N UDesc)
           = map (\<lambda>s. Some (floored_shrinkage s (alpha ! 0))) S"
    unfolding quotients_eq[OF assms(1)]
  proof (rule map_cong[OF refl])
    fix s assume "s \<in> set S"
    then obtain j where "j < length S" "S ! j = s" by (auto simp: in_set_conv_nth)
    then have "\<not> \<bar>s\<bar> < thres \<longrightarrow> s\<^sup>2 + alpha ! 0 \<noteq> 0"
      using assms by (auto simp: shrinkage_defined_def)
    then show "divSkipZero (if \<bar>s\<bar> < thres then 0 else s)
           ((if \<bar>s\<bar> < thres then 0 else s) * (if \<bar>s\<bar> < thres then 0 else s) + alpha ! 0)
         = Some (floored_shrinkage s (alpha ! 0))"
      by (rule divSkipZero_floored)
  qed
  have d: "drop (N UDesc) (ridgeSolve_S_floored S UDesc) = []"
    using assms(1) by (simp add: S_floored_eq)
  show ?thesis
    by (simp add: ridgeSolve_S_ratio_def matrixVectorBinaryDivSkipZero_def q d Let_def o_def
        image_iff)
qed

subsection \<open>The scaled product and the solve\<close>

lemma dot_sum:
  "length xs = n \<Longrightarrow> length ys = n \<Longrightarrow> dot xs ys = (\<Sum>j<n. xs ! j * ys ! j)"
proof -
  assume len: "length xs = n" "length ys = n"
  have "dot xs ys = (\<Sum>j = 0..<length (map2 (*) xs ys). map2 (*) xs ys ! j)"
    unfolding dot_def by (rule sum_list_sum_nth)
  also have "\<dots> = (\<Sum>j = 0..<n. xs ! j * ys ! j)"
    using len by (intro sum.cong) simp_all
  finally show ?thesis by (simp add: atLeast0LessThan)
qed

lemma scale_gemm:
  assumes "length V = n" and "\<forall>row\<in>set V. length row = n" and "length r = n"
    and "length x = n"
  shows "gemm (matrixVectorBinaryMult V r n n) n n x w
         = V_diag_x n V (\<lambda>j. r ! j) x @ drop n w"
proof -
  have sc: "matrixVectorBinaryMult V r n n = map (\<lambda>row. map2 (*) row r) V"
    using assms by (simp add: matrixVectorBinaryMult_def)
  have "map (\<lambda>row. dot (take n row) (take n x)) (map (\<lambda>row. map2 (*) row r) V)
        = V_diag_x n V (\<lambda>j. r ! j) x"
  proof (rule nth_equalityI)
    show "length (map (\<lambda>row. dot (take n row) (take n x)) (map (\<lambda>row. map2 (*) row r) V))
          = length (V_diag_x n V (\<lambda>j. r ! j) x)"
      using assms by (simp add: V_diag_x_def)
    fix i assume "i < length (map (\<lambda>row. dot (take n row) (take n x)) (map (\<lambda>row. map2 (*) row r) V))"
    then have i: "i < n" using assms by simp
    then have row: "length (V ! i) = n" using assms by simp
    have "dot (map2 (*) (V ! i) r) x = (\<Sum>j<n. map2 (*) (V ! i) r ! j * x ! j)"
      using row assms(3,4) by (intro dot_sum) simp_all
    then have "dot (take n (map2 (*) (V ! i) r)) (take n x)
               = (\<Sum>j<n. map2 (*) (V ! i) r ! j * x ! j)"
      using row assms(3,4) by simp
    also have "\<dots> = (\<Sum>j<n. V ! i ! j * r ! j * x ! j)"
    proof (rule sum.cong[OF refl])
      fix j assume "j \<in> {..<n}"
      then show "map2 (*) (V ! i) r ! j * x ! j = V ! i ! j * r ! j * x ! j"
        using row assms(3) by simp
    qed
    finally show "map (\<lambda>row. dot (take n row) (take n x)) (map (\<lambda>row. map2 (*) row r) V) ! i
                  = V_diag_x n V (\<lambda>j. r ! j) x ! i"
      using i assms by (simp add: V_diag_x_def)
  qed
  then show ?thesis using assms by (simp add: gemm_def sc)
qed

lemma V_diag_x_cong:
  "(\<And>j. j < n \<Longrightarrow> r j = r' j) \<Longrightarrow> V_diag_x n V r x = V_diag_x n V r' x"
  by (simp add: V_diag_x_def)

lemma ridgeSolve_closed:
  assumes "streams \<noteq> []" and "alpha \<noteq> []" and "wf_factors (N UDesc) S V"
    and "\<forall>q\<in>set ((U, b) # comm). wf_rank (N UDesc) q"
    and "shrinkage_defined (N UDesc) S (alpha ! 0)"
  shows "ridgeSolve S V U UDesc b alpha n_alpha w comm streams n_streams
         = Inr (V_diag_x (N UDesc) V (\<lambda>j. floored_shrinkage (S ! j) (alpha ! 0))
                  (UTb (N UDesc) (rows_of ((U, b) # comm)) (labels_of ((U, b) # comm)))
                @ drop (N UDesc) w)"
proof -
  let ?n = "N UDesc"
  let ?r = "map (\<lambda>s. floored_shrinkage s (alpha ! 0)) S"
  let ?x = "UTb ?n (rows_of ((U, b) # comm)) (labels_of ((U, b) # comm))"
  have wf: "length S = ?n" "length V = ?n" "\<forall>row\<in>set V. length row = ?n"
    using assms(3) by (simp_all add: wf_factors_def)
  have ratio: "ridgeSolve_S_ratio S UDesc alpha = Some ?r"
    using wf(1) assms(5) by (rule S_ratio_eq)
  have x: "mv_aTb U UDesc b comm = ?x" using assms(4) by (rule mv_aTb_UTb)
  have "gemm (matrixVectorBinaryMult V ?r ?n ?n) ?n ?n ?x w
        = V_diag_x ?n V (\<lambda>j. ?r ! j) ?x @ drop ?n w"
    using wf by (intro scale_gemm) (simp_all add: UTb_def)
  also have "V_diag_x ?n V (\<lambda>j. ?r ! j) ?x
             = V_diag_x ?n V (\<lambda>j. floored_shrinkage (S ! j) (alpha ! 0)) ?x"
    using wf(1) by (intro V_diag_x_cong) simp
  finally show ?thesis
    using assms(1,2) by (simp add: ridgeSolve_def ratio x Let_def)
qed

lemma S_ratio_None:
  assumes "length S = N UDesc" and "\<not> shrinkage_defined (N UDesc) S (alpha ! 0)"
  shows "ridgeSolve_S_ratio S UDesc alpha = None"
proof -
  define g where "g = (\<lambda>s. divSkipZero (if \<bar>s\<bar> < thres then 0 else s)
                 ((if \<bar>s\<bar> < thres then 0 else s) * (if \<bar>s\<bar> < thres then 0 else s) + alpha ! 0))"
  from assms(2) obtain j where j: "j < N UDesc" "\<not> \<bar>S ! j\<bar> < thres"
    "(S ! j)\<^sup>2 + alpha ! 0 = 0"
    by (auto simp: shrinkage_defined_def)
  have nz: "S ! j \<noteq> 0" using j(2) thres_pos by auto
  have z: "S ! j * S ! j + alpha ! 0 = 0" using j(3) by (simp only: power2_eq_square)
  have "g (S ! j) = divSkipZero (S ! j) (S ! j * S ! j + alpha ! 0)"
    unfolding g_def using j(2) by simp
  also have "\<dots> = None" unfolding z divSkipZero_def using nz by simp
  finally have gj: "g (S ! j) = None" .
  have "S ! j \<in> set S" using j(1) assms(1) by simp
  then have "g (S ! j) \<in> set (map g S)" by simp
  then have "None \<in> set (map g S)" unfolding gj .
  then have "None \<in> set (quotients (ridgeSolve_S_floored S UDesc)
                                (ridgeSolve_S_nnz S UDesc alpha) (N UDesc))"
    unfolding quotients_eq[OF assms(1)] g_def .
  then show ?thesis
    by (simp add: ridgeSolve_S_ratio_def matrixVectorBinaryDivSkipZero_def Let_def)
qed

lemma S_ratio_cases:
  assumes "length S = N UDesc"
  shows "ridgeSolve_S_ratio S UDesc alpha
         = (if shrinkage_defined (N UDesc) S (alpha ! 0)
            then Some (map (\<lambda>s. floored_shrinkage s (alpha ! 0)) S) else None)"
  using S_ratio_eq[OF assms] S_ratio_None[OF assms] by simp

lemma scaled_V:
  assumes "length V = n" and "\<forall>row\<in>set V. length row = n" and "length S = n"
  shows "matrixVectorBinaryMult V (map f S) n n = V_diag n V (\<lambda>j. f (S ! j))"
proof -
  have sc: "matrixVectorBinaryMult V (map f S) n n = map (\<lambda>row. map2 (*) row (map f S)) V"
    using assms by (simp add: matrixVectorBinaryMult_def)
  have "map (\<lambda>row. map2 (*) row (map f S)) V = V_diag n V (\<lambda>j. f (S ! j))"
  proof (rule nth_equalityI)
    show "length (map (\<lambda>row. map2 (*) row (map f S)) V) = length (V_diag n V (\<lambda>j. f (S ! j)))"
      using assms(1) by (simp add: V_diag_def)
    fix i assume "i < length (map (\<lambda>row. map2 (*) row (map f S)) V)"
    then have i: "i < n" using assms(1) by simp
    then have row: "length (V ! i) = n" using assms(1,2) by simp
    have "map2 (*) (V ! i) (map f S) = map (\<lambda>j. V ! i ! j * f (S ! j)) [0..<n]"
      using row assms(3) by (intro nth_equalityI) simp_all
    then show "map (\<lambda>row. map2 (*) row (map f S)) V ! i = V_diag n V (\<lambda>j. f (S ! j)) ! i"
      using i assms(1) by (simp add: V_diag_def)
  qed
  then show ?thesis using sc by simp
qed

lemma ridgeSolve_buffers_None:
  assumes "ridgeSolve_S_ratio S UDesc alpha = None"
  shows "map buf_V (ridgeSolve_buffers S V U UDesc b alpha w comm) = [V, V, V, V, V, V]"
    and "map buf_S (ridgeSolve_buffers S V U UDesc b alpha w comm)
         = [S, ridgeSolve_S_floored S UDesc, ridgeSolve_S_floored S UDesc,
            ridgeSolve_S_floored S UDesc, ridgeSolve_S_floored S UDesc,
            ridgeSolve_S_floored S UDesc]"
    and "map buf_S_nnz (ridgeSolve_buffers S V U UDesc b alpha w comm)
         = [[], [], allocate (N UDesc),
            copy (allocate (N UDesc)) (ridgeSolve_S_floored S UDesc) (N UDesc),
            power_sq (copy (allocate (N UDesc)) (ridgeSolve_S_floored S UDesc) (N UDesc))
              (N UDesc),
            ridgeSolve_S_nnz S UDesc alpha]"
proof -
  have r: "matrixVectorBinaryDivSkipZero (setSmallValuesZero S (N UDesc) thres)
             (addScalar (power_sq (copy (allocate (N UDesc))
                (setSmallValuesZero S (N UDesc) thres) (N UDesc)) (N UDesc)) (alpha ! 0) (N UDesc))
             (N UDesc) = None"
    using assms
    by (simp add: ridgeSolve_S_ratio_def ridgeSolve_S_nnz_def ridgeSolve_S_floored_def Let_def)
  show "map buf_V (ridgeSolve_buffers S V U UDesc b alpha w comm) = [V, V, V, V, V, V]"
    unfolding ridgeSolve_buffers_def Let_def r by simp
  show "map buf_S (ridgeSolve_buffers S V U UDesc b alpha w comm)
         = [S, ridgeSolve_S_floored S UDesc, ridgeSolve_S_floored S UDesc,
            ridgeSolve_S_floored S UDesc, ridgeSolve_S_floored S UDesc,
            ridgeSolve_S_floored S UDesc]"
    unfolding ridgeSolve_buffers_def Let_def r ridgeSolve_S_floored_def by simp
  show "map buf_S_nnz (ridgeSolve_buffers S V U UDesc b alpha w comm)
         = [[], [], allocate (N UDesc),
            copy (allocate (N UDesc)) (ridgeSolve_S_floored S UDesc) (N UDesc),
            power_sq (copy (allocate (N UDesc)) (ridgeSolve_S_floored S UDesc) (N UDesc))
              (N UDesc),
            ridgeSolve_S_nnz S UDesc alpha]"
    unfolding ridgeSolve_buffers_def Let_def r ridgeSolve_S_floored_def ridgeSolve_S_nnz_def
    by simp
qed

lemma ridgeSolve_buffers_Some:
  assumes "ridgeSolve_S_ratio S UDesc alpha = Some S2"
  shows "map buf_V (ridgeSolve_buffers S V U UDesc b alpha w comm)
         = [V, V, V, V, V, V, V, matrixVectorBinaryMult V S2 (N UDesc) (N UDesc),
            matrixVectorBinaryMult V S2 (N UDesc) (N UDesc),
            matrixVectorBinaryMult V S2 (N UDesc) (N UDesc)]"
    and "map buf_S (ridgeSolve_buffers S V U UDesc b alpha w comm)
         = [S, ridgeSolve_S_floored S UDesc, ridgeSolve_S_floored S UDesc,
            ridgeSolve_S_floored S UDesc, ridgeSolve_S_floored S UDesc,
            ridgeSolve_S_floored S UDesc, S2, S2, S2, S2]"
    and "map buf_S_nnz (ridgeSolve_buffers S V U UDesc b alpha w comm)
         = [[], [], allocate (N UDesc),
            copy (allocate (N UDesc)) (ridgeSolve_S_floored S UDesc) (N UDesc),
            power_sq (copy (allocate (N UDesc)) (ridgeSolve_S_floored S UDesc) (N UDesc))
              (N UDesc),
            ridgeSolve_S_nnz S UDesc alpha, ridgeSolve_S_nnz S UDesc alpha,
            ridgeSolve_S_nnz S UDesc alpha, mv_aTb U UDesc b comm, mv_aTb U UDesc b comm]"
    and "buf_w (last (ridgeSolve_buffers S V U UDesc b alpha w comm))
         = gemm (matrixVectorBinaryMult V S2 (N UDesc) (N UDesc)) (N UDesc) (N UDesc)
             (mv_aTb U UDesc b comm) w"
proof -
  have r: "matrixVectorBinaryDivSkipZero (setSmallValuesZero S (N UDesc) thres)
             (addScalar (power_sq (copy (allocate (N UDesc))
                (setSmallValuesZero S (N UDesc) thres) (N UDesc)) (N UDesc)) (alpha ! 0) (N UDesc))
             (N UDesc) = Some S2"
    using assms
    by (simp add: ridgeSolve_S_ratio_def ridgeSolve_S_nnz_def ridgeSolve_S_floored_def Let_def)
  show "map buf_V (ridgeSolve_buffers S V U UDesc b alpha w comm)
         = [V, V, V, V, V, V, V, matrixVectorBinaryMult V S2 (N UDesc) (N UDesc),
            matrixVectorBinaryMult V S2 (N UDesc) (N UDesc),
            matrixVectorBinaryMult V S2 (N UDesc) (N UDesc)]"
    unfolding ridgeSolve_buffers_def Let_def r by simp
  show "map buf_S (ridgeSolve_buffers S V U UDesc b alpha w comm)
         = [S, ridgeSolve_S_floored S UDesc, ridgeSolve_S_floored S UDesc,
            ridgeSolve_S_floored S UDesc, ridgeSolve_S_floored S UDesc,
            ridgeSolve_S_floored S UDesc, S2, S2, S2, S2]"
    unfolding ridgeSolve_buffers_def Let_def r ridgeSolve_S_floored_def by simp
  show "map buf_S_nnz (ridgeSolve_buffers S V U UDesc b alpha w comm)
         = [[], [], allocate (N UDesc),
            copy (allocate (N UDesc)) (ridgeSolve_S_floored S UDesc) (N UDesc),
            power_sq (copy (allocate (N UDesc)) (ridgeSolve_S_floored S UDesc) (N UDesc))
              (N UDesc),
            ridgeSolve_S_nnz S UDesc alpha, ridgeSolve_S_nnz S UDesc alpha,
            ridgeSolve_S_nnz S UDesc alpha, mv_aTb U UDesc b comm, mv_aTb U UDesc b comm]"
    unfolding ridgeSolve_buffers_def Let_def r ridgeSolve_S_floored_def ridgeSolve_S_nnz_def
    by simp
  show "buf_w (last (ridgeSolve_buffers S V U UDesc b alpha w comm))
         = gemm (matrixVectorBinaryMult V S2 (N UDesc) (N UDesc)) (N UDesc) (N UDesc)
             (mv_aTb U UDesc b comm) w"
    unfolding ridgeSolve_buffers_def Let_def r by simp
qed

lemma ridgeSolve_last_buffer:
  assumes "streams \<noteq> []" and "alpha \<noteq> []" and "ridgeSolve_S_ratio S UDesc alpha = Some S2"
  shows "ridgeSolve S V U UDesc b alpha n_alpha w comm streams n_streams
         = Inr (buf_w (last (ridgeSolve_buffers S V U UDesc b alpha w comm)))"
  using assms(1,2) by (simp add: ridgeSolve_def assms(3) ridgeSolve_buffers_Some(4)[OF assms(3)])

lemma ridgeSolve_buffers_shapes:
  assumes "wf_factors (N UDesc) S V" and "\<forall>q\<in>set ((U, b) # comm). wf_rank (N UDesc) q"
    and "st \<in> set (ridgeSolve_buffers S V U UDesc b alpha w comm)"
  shows "(buf_V st = V
          \<or> buf_V st = V_diag (N UDesc) V (\<lambda>j. floored_shrinkage (S ! j) (alpha ! 0))) \<and>
         length (buf_S st) = N UDesc \<and>
         (buf_S_nnz st = [] \<or> length (buf_S_nnz st) = N UDesc)"
proof -
  let ?bufs = "ridgeSolve_buffers S V U UDesc b alpha w comm"
  have wf: "length S = N UDesc" "length V = N UDesc" "\<forall>row\<in>set V. length row = N UDesc"
    using assms(1) by (simp_all add: wf_factors_def)
  have l1: "length (ridgeSolve_S_floored S UDesc) = N UDesc"
    using wf(1) by (simp add: S_floored_eq)
  have l2: "length (ridgeSolve_S_nnz S UDesc alpha) = N UDesc"
    using wf(1) by (simp add: S_nnz_eq)
  have l3: "length (copy (allocate (N UDesc)) (ridgeSolve_S_floored S UDesc) (N UDesc)) = N UDesc"
    "length (power_sq (copy (allocate (N UDesc)) (ridgeSolve_S_floored S UDesc) (N UDesc))
               (N UDesc)) = N UDesc"
    "length (allocate (N UDesc)) = N UDesc"
    using l1 by (simp_all add: copy_def power_sq_def allocate_def)
  have l4: "length (mv_aTb U UDesc b comm) = N UDesc"
    using mv_aTb_UTb[OF assms(2)] by (simp add: UTb_def)
  have v: "buf_V st \<in> set (map buf_V ?bufs)" and s: "buf_S st \<in> set (map buf_S ?bufs)"
    and n: "buf_S_nnz st \<in> set (map buf_S_nnz ?bufs)"
    using assms(3) by simp_all
  show ?thesis
  proof (cases "shrinkage_defined (N UDesc) S (alpha ! 0)")
    case True
    let ?r = "map (\<lambda>s. floored_shrinkage s (alpha ! 0)) S"
    have ratio: "ridgeSolve_S_ratio S UDesc alpha = Some ?r"
      using wf(1) True by (rule S_ratio_eq)
    have sv: "matrixVectorBinaryMult V ?r (N UDesc) (N UDesc)
              = V_diag (N UDesc) V (\<lambda>j. floored_shrinkage (S ! j) (alpha ! 0))"
      using wf(2,3,1) by (rule scaled_V)
    have "buf_V st = V
          \<or> buf_V st = V_diag (N UDesc) V (\<lambda>j. floored_shrinkage (S ! j) (alpha ! 0))"
      using v unfolding ridgeSolve_buffers_Some(1)[OF ratio] sv by auto
    moreover have "length (buf_S st) = N UDesc"
      using s wf(1) l1 unfolding ridgeSolve_buffers_Some(2)[OF ratio] by auto
    moreover have "buf_S_nnz st = [] \<or> length (buf_S_nnz st) = N UDesc"
      using n l2 l3 l4 unfolding ridgeSolve_buffers_Some(3)[OF ratio] by auto
    ultimately show ?thesis by blast
  next
    case False
    have ratio: "ridgeSolve_S_ratio S UDesc alpha = None"
      using wf(1) False by (rule S_ratio_None)
    have "buf_V st = V"
      using v unfolding ridgeSolve_buffers_None(1)[OF ratio] by auto
    moreover have "length (buf_S st) = N UDesc"
      using s wf(1) l1 unfolding ridgeSolve_buffers_None(2)[OF ratio] by auto
    moreover have "buf_S_nnz st = [] \<or> length (buf_S_nnz st) = N UDesc"
      using n l2 l3 unfolding ridgeSolve_buffers_None(3)[OF ratio] by auto
    ultimately show ?thesis by blast
  qed
qed

lemma ridgeSolve_alpha0:
  assumes "alpha \<noteq> []" and "alpha' \<noteq> []" and "alpha ! 0 = alpha' ! 0"
  shows "ridgeSolve S V U UDesc b alpha n_alpha w comm streams n_streams
         = ridgeSolve S V U UDesc b alpha' n_alpha' w comm streams n_streams"
  using assms by (simp add: ridgeSolve_def ridgeSolve_S_ratio_def ridgeSolve_S_nnz_def)

lemma ridgeEig_alpha0:
  assumes "alpha \<noteq> []" and "alpha' \<noteq> []" and "alpha ! 0 = alpha' ! 0"
  shows "ridgeEig X comm A ADesc b alpha n_alpha coef streams n_streams
         = ridgeEig X comm A ADesc b alpha' n_alpha' coef streams n_streams"
  by (simp add: ridgeEig_def Let_def
      ridgeSolve_alpha0[OF assms, of _ _ _ _ _ n_alpha _ _ _ _ n_alpha'] split: prod.splits)

subsection \<open>The predict loop\<close>

lemma block_in_bounds_cong:
  "preds ! k = preds' ! k \<Longrightarrow>
   block_in_bounds input_data input_desc coef preds k
   = block_in_bounds input_data input_desc coef preds' k"
  by (simp add: block_in_bounds_def)

lemma predict_block_ok:
  assumes "n_streams \<noteq> 0" and "i < length (partsToRanks input_desc)"
    and "i < length (preds_of st)" and "stream_index i n_streams < length streams"
    and "block_in_bounds input_data input_desc coef (preds_of st) i"
  shows "predict_block input_data input_desc coef intercept streams n_streams i st
         = Inr \<lparr>preds_of = (preds_of st)[i := block_out input_data input_desc coef intercept (preds_of st) i],
                issued = issued st @ issue streams n_streams i\<rparr>"
  using assms
  by (auto simp add: predict_block_def block_out_def issue_def Let_def block_in_bounds_def
      list_all_iff list_ex_iff not_less)

lemma block_out_cong:
  "preds ! k = preds' ! k \<Longrightarrow>
   block_out input_data input_desc coef intercept preds k
   = block_out input_data input_desc coef intercept preds' k"
  by (simp add: block_out_def)

lemma predict_loop_result:
  assumes "n_streams \<noteq> 0" and "distinct is"
    and "\<forall>i\<in>set is. i < length (partsToRanks input_desc) \<and> i < length (preds_of st)
           \<and> stream_index i n_streams < length streams
           \<and> block_in_bounds input_data input_desc coef (preds_of st) i"
  shows "predict_loop input_data input_desc coef intercept streams n_streams is st
         = Inr \<lparr>preds_of = map (\<lambda>k. if k \<in> set is
                                   then block_out input_data input_desc coef intercept (preds_of st) k
                                   else preds_of st ! k) [0..<length (preds_of st)],
                issued = issued st @ concat (map (issue streams n_streams) is)\<rparr>"
  using assms(2,3)
proof (induction "is" arbitrary: st)
  case Nil
  then show ?case by (simp add: map_nth)
next
  case (Cons i "is")
  let ?st1 = "\<lparr>preds_of = (preds_of st)[i := block_out input_data input_desc coef intercept (preds_of st) i],
                issued = issued st @ issue streams n_streams i\<rparr>"
  have i: "i < length (partsToRanks input_desc)" "i < length (preds_of st)"
    "stream_index i n_streams < length streams" "i \<notin> set is" "distinct is"
    "block_in_bounds input_data input_desc coef (preds_of st) i"
    using Cons.prems by simp_all
  have step: "predict_block input_data input_desc coef intercept streams n_streams i st = Inr ?st1"
    using assms(1) i(1,2,3,6) by (rule predict_block_ok)
  have rest: "\<forall>k\<in>set is. k < length (partsToRanks input_desc) \<and> k < length (preds_of ?st1)
           \<and> stream_index k n_streams < length streams
           \<and> block_in_bounds input_data input_desc coef (preds_of ?st1) k"
  proof
    fix k assume k: "k \<in> set is"
    then have "k \<noteq> i" using i(4) by auto
    then have "preds_of ?st1 ! k = preds_of st ! k" by simp
    then have "block_in_bounds input_data input_desc coef (preds_of ?st1) k
               = block_in_bounds input_data input_desc coef (preds_of st) k"
      by (rule block_in_bounds_cong)
    then show "k < length (partsToRanks input_desc) \<and> k < length (preds_of ?st1)
           \<and> stream_index k n_streams < length streams
           \<and> block_in_bounds input_data input_desc coef (preds_of ?st1) k"
      using Cons.prems(2) k by simp
  qed
  have ih: "predict_loop input_data input_desc coef intercept streams n_streams is ?st1
         = Inr \<lparr>preds_of = map (\<lambda>k. if k \<in> set is
                                   then block_out input_data input_desc coef intercept (preds_of ?st1) k
                                   else preds_of ?st1 ! k) [0..<length (preds_of ?st1)],
                issued = issued ?st1 @ concat (map (issue streams n_streams) is)\<rparr>"
    using i(5) rest by (rule Cons.IH)
  have "map (\<lambda>k. if k \<in> set is
                 then block_out input_data input_desc coef intercept (preds_of ?st1) k
                 else preds_of ?st1 ! k) [0..<length (preds_of ?st1)]
        = map (\<lambda>k. if k \<in> set (i # is)
                 then block_out input_data input_desc coef intercept (preds_of st) k
                 else preds_of st ! k) [0..<length (preds_of st)]"
  proof (rule nth_equalityI)
    show "length (map (\<lambda>k. if k \<in> set is
                 then block_out input_data input_desc coef intercept (preds_of ?st1) k
                 else preds_of ?st1 ! k) [0..<length (preds_of ?st1)])
        = length (map (\<lambda>k. if k \<in> set (i # is)
                 then block_out input_data input_desc coef intercept (preds_of st) k
                 else preds_of st ! k) [0..<length (preds_of st)])"
      by simp
    fix k assume "k < length (map (\<lambda>k. if k \<in> set is
                 then block_out input_data input_desc coef intercept (preds_of ?st1) k
                 else preds_of ?st1 ! k) [0..<length (preds_of ?st1)])"
    then have k: "k < length (preds_of st)" by simp
    show "map (\<lambda>k. if k \<in> set is
                 then block_out input_data input_desc coef intercept (preds_of ?st1) k
                 else preds_of ?st1 ! k) [0..<length (preds_of ?st1)] ! k
        = map (\<lambda>k. if k \<in> set (i # is)
                 then block_out input_data input_desc coef intercept (preds_of st) k
                 else preds_of st ! k) [0..<length (preds_of st)] ! k"
    proof (cases "k = i")
      case True
      then show ?thesis using k i(4) by simp
    next
      case False
      then have "preds_of ?st1 ! k = preds_of st ! k" by simp
      then have "block_out input_data input_desc coef intercept (preds_of ?st1) k
                 = block_out input_data input_desc coef intercept (preds_of st) k"
        by (rule block_out_cong)
      then show ?thesis using k False by simp
    qed
  qed
  then show ?case using step ih by simp
qed

lemma predict_impl_streams_result:
  assumes "n_streams \<noteq> 0" and "length input_data \<le> length (partsToRanks input_desc)"
    and "length input_data \<le> length preds"
    and "\<forall>i<length input_data. stream_index i n_streams < length streams"
    and "\<forall>i<length input_data. block_in_bounds input_data input_desc coef preds i"
  shows "predict_impl_streams input_data input_desc coef intercept preds streams n_streams
         = Inr \<lparr>preds_of = map (\<lambda>k. if k < length input_data
                                   then block_out input_data input_desc coef intercept preds k
                                   else preds ! k) [0..<length preds],
                issued = concat (map (issue streams n_streams) [0..<length input_data])\<rparr>"
proof -
  have "\<forall>i\<in>set [0..<length input_data]. i < length (partsToRanks input_desc)
          \<and> i < length (preds_of \<lparr>preds_of = preds, issued = []\<rparr>)
          \<and> stream_index i n_streams < length streams
          \<and> block_in_bounds input_data input_desc coef
                (preds_of \<lparr>preds_of = preds, issued = []\<rparr>) i"
    using assms(2,3,4,5) by auto
  from predict_loop_result[OF assms(1) distinct_upt this]
  show ?thesis by (simp add: predict_impl_streams_def)
qed

lemma stream_index_pos: "0 < n_streams \<Longrightarrow> stream_index i n_streams = i mod nat n_streams"
  by (simp add: stream_index_def nat_mod_distrib)

lemma gemm_addScalar:
  assumes "sz \<le> length rows" and "\<forall>row\<in>set (take sz rows). length row = n" and "length coef = n"
  shows "addScalar (gemm rows sz n coef p) intercept sz
         = map (row_prediction n coef intercept) (take sz rows) @ drop sz p"
proof -
  have "\<And>row. row \<in> set (take sz rows) \<Longrightarrow>
          dot (take n row) (take n coef) + intercept = row_prediction n coef intercept row"
    using assms(2,3) by (simp add: row_prediction_def dot_def sum_list_sum_nth atLeast0LessThan)
  then have "map (\<lambda>row. dot (take n row) (take n coef) + intercept) (take sz rows)
             = map (row_prediction n coef intercept) (take sz rows)"
    by simp
  then show ?thesis using assms(1)
    by (simp add: addScalar_def gemm_def o_def)
qed

lemma wf_predict_in_bounds:
  assumes "wf_predict rank_sizes n_parts input n_cols coef preds" and "i < n_parts"
    and "partsToRanks input_desc ! i = rank_sizes ! i" and "N input_desc = n_cols"
    and "input_data ! i = input ! i" and "preds_data ! i = preds ! i"
  shows "block_in_bounds input_data input_desc coef preds_data i"
  using assms by (simp add: wf_predict_def block_in_bounds_def list_all_iff)

lemma block_out_eq:
  assumes "i < n_parts" and "wf_predict rank_sizes n_parts input n_cols coef preds"
    and "partsToRanks input_desc ! i = rank_sizes ! i" and "N input_desc = n_cols"
    and "input_data ! i = input ! i" and "preds_data ! i = preds ! i"
  shows "block_out input_data input_desc coef intercept preds_data i
         = (preds ! i)\<lparr>ptr := map (row_prediction n_cols coef intercept)
                                 (block_rows rank_sizes input i)
                               @ drop (size_rsp (rank_sizes ! i)) (ptr (preds ! i))\<rparr>"
proof -
  have wf: "size_rsp (rank_sizes ! i) \<le> length (ptr (input ! i))"
    "\<forall>row\<in>set (take (size_rsp (rank_sizes ! i)) (ptr (input ! i))). length row = n_cols"
    "length coef = n_cols"
    using assms(1,2) by (simp_all add: wf_predict_def)
  show ?thesis
    using gemm_addScalar[OF wf] assms(3-6) by (simp add: block_out_def block_rows_def)
qed

lemma issue_own_stream:
  "i < n \<Longrightarrow> issue (cudaStreamCreate_all n) (int n) i = [(i, Gemm i), (i, AddScalar i)]"
  by (simp add: issue_def stream_index_def cudaStreamCreate_all_def nat_mod_distrib
      flip: zmod_int)

lemma predict_impl_result:
  assumes "wf_predict rank_sizes n_parts input n_cols coef preds"
  shows "predict_impl comm rank_sizes n_parts input n_rows n_cols coef intercept preds
         = Inr \<lparr>preds_of = map (predicted rank_sizes input n_cols coef intercept preds) [0..<n_parts]
                           @ drop n_parts preds,
                issued = concat (map (\<lambda>i. [(i, Gemm i), (i, AddScalar i)]) [0..<n_parts])\<rparr>"
proof (cases "n_parts = 0")
  case True
  then show ?thesis
    by (simp add: predict_impl_def predict_impl_streams_def Let_def)
next
  case False
  let ?desc = "\<lparr>M = n_rows, N = n_cols, partsToRanks = take n_parts rank_sizes,
                 desc_rank = getRank comm\<rparr>"
  let ?streams = "cudaStreamCreate_all n_parts"
  have len: "n_parts \<le> length rank_sizes" "n_parts \<le> length input" "n_parts \<le> length preds"
    using assms by (simp_all add: wf_predict_def)
  have cond: "int n_parts \<noteq> 0"
    "length (take n_parts input) \<le> length (partsToRanks ?desc)"
    "length (take n_parts input) \<le> length (take n_parts preds)"
    "\<forall>i<length (take n_parts input). stream_index i (int n_parts) < length ?streams"
    "\<forall>i<length (take n_parts input).
       block_in_bounds (take n_parts input) ?desc coef (take n_parts preds) i"
    using False len wf_predict_in_bounds[OF assms]
    by (simp_all add: stream_index_def cudaStreamCreate_all_def nat_mod_distrib flip: zmod_int)
  have run: "predict_impl_streams (take n_parts input) ?desc coef intercept (take n_parts preds)
               ?streams (int n_parts)
             = Inr \<lparr>preds_of = map (\<lambda>k. if k < n_parts
                       then block_out (take n_parts input) ?desc coef intercept (take n_parts preds) k
                       else take n_parts preds ! k) [0..<n_parts],
                    issued = concat (map (issue ?streams (int n_parts)) [0..<n_parts])\<rparr>"
    using predict_impl_streams_result[OF cond, of intercept] len by simp
  have pw: "block_out (take n_parts input) ?desc coef intercept (take n_parts preds) k
            = predicted rank_sizes input n_cols coef intercept preds k" if k: "k < n_parts" for k
    unfolding predicted_def using k by (intro block_out_eq[OF k assms]) simp_all
  have q: "map (issue ?streams (int n_parts)) [0..<n_parts]
           = map (\<lambda>i. [(i, Gemm i), (i, AddScalar i)]) [0..<n_parts]"
    by (rule map_cong[OF refl]) (simp add: issue_own_stream)
  show ?thesis
    using len by (simp add: predict_impl_def Let_def run pw) (simp only: q)
qed

lemma global_preds_predicted:
  assumes "wf_predict rank_sizes n_parts input n_cols coef preds"
  shows "global_preds rank_sizes n_parts
           (map (predicted rank_sizes input n_cols coef intercept preds) [0..<n_parts]
            @ drop n_parts preds)
         = map (row_prediction n_cols coef intercept) (global_rows rank_sizes n_parts input)"
proof -
  have "map (\<lambda>i. take (size_rsp (rank_sizes ! i))
                  (ptr ((map (predicted rank_sizes input n_cols coef intercept preds) [0..<n_parts]
                         @ drop n_parts preds) ! i))) [0..<n_parts]
        = map (\<lambda>i. map (row_prediction n_cols coef intercept) (block_rows rank_sizes input i))
            [0..<n_parts]"
  proof (rule map_cong[OF refl])
    fix i assume "i \<in> set [0..<n_parts]"
    then have i: "i < n_parts" by simp
    then have "size_rsp (rank_sizes ! i) \<le> length (ptr (input ! i))"
      using assms by (simp add: wf_predict_def)
    then have "length (block_rows rank_sizes input i) = size_rsp (rank_sizes ! i)"
      by (simp add: block_rows_def)
    then show "take (size_rsp (rank_sizes ! i))
                  (ptr ((map (predicted rank_sizes input n_cols coef intercept preds) [0..<n_parts]
                         @ drop n_parts preds) ! i))
               = map (row_prediction n_cols coef intercept) (block_rows rank_sizes input i)"
      using i by (simp add: nth_append predicted_def)
  qed
  then have "global_preds rank_sizes n_parts
           (map (predicted rank_sizes input n_cols coef intercept preds) [0..<n_parts]
            @ drop n_parts preds)
        = concat (map (\<lambda>i. map (row_prediction n_cols coef intercept)
                               (block_rows rank_sizes input i)) [0..<n_parts])"
    unfolding global_preds_def by (rule arg_cong)
  also have "\<dots> = map (row_prediction n_cols coef intercept) (global_rows rank_sizes n_parts input)"
    by (simp add: global_rows_def map_concat o_def)
  finally show ?thesis .
qed

lemma predict_block_sizes:
  assumes "N input_desc = N input_desc'"
    and "map size_rsp (partsToRanks input_desc) = map size_rsp (partsToRanks input_desc')"
  shows "predict_block input_data input_desc coef intercept streams n_streams i st
         = predict_block input_data input_desc' coef intercept streams n_streams i st"
proof -
  have len: "length (partsToRanks input_desc) = length (partsToRanks input_desc')"
    using assms(2) by (rule map_eq_imp_length_eq)
  have "size_rsp (partsToRanks input_desc ! i) = size_rsp (partsToRanks input_desc' ! i)"
    if "i < length (partsToRanks input_desc)"
    using that assms(2) len by (metis nth_map)
  then show ?thesis
    using assms(1) len by (simp add: predict_block_def Let_def)
qed

lemma predict_loop_sizes:
  assumes "N input_desc = N input_desc'"
    and "map size_rsp (partsToRanks input_desc) = map size_rsp (partsToRanks input_desc')"
  shows "predict_loop input_data input_desc coef intercept streams n_streams is st
         = predict_loop input_data input_desc' coef intercept streams n_streams is st"
  by (induction "is" arbitrary: st) (simp_all add: predict_block_sizes[OF assms] split: sum.splits)

lemma predict_block_length:
  "predict_block input_data input_desc coef intercept streams n_streams i st = Inr st' \<Longrightarrow>
   length (preds_of st') = length (preds_of st)"
  by (auto simp: predict_block_def Let_def split: if_splits)

lemma predict_loop_length:
  "predict_loop input_data input_desc coef intercept streams n_streams is st = Inr st' \<Longrightarrow>
   length (preds_of st') = length (preds_of st)"
proof (induction "is" arbitrary: st)
  case Nil
  then show ?case by simp
next
  case (Cons i "is")
  then show ?case
    by (auto split: sum.splits dest: predict_block_length)
qed

subsection \<open>The example\<close>

lemma owner_ex: "blocksOwnedBy ex_desc (getRank ex_comm) = [\<lparr>rank = 0, size_rsp = 1\<rparr>]"
  by (simp add: blocksOwnedBy_def ex_desc_def ex_comm_def)

lemma ex_N: "N ex_desc = 2"
  by (simp add: ex_desc_def)

lemma ex_ratio: "ridgeSolve_S_ratio ex_S ex_desc [1] = Some [1 / 2, 0]"
  by (simp add: ridgeSolve_S_ratio_def matrixVectorBinaryDivSkipZero_def quotients_def
        ridgeSolve_S_floored_def ridgeSolve_S_nnz_def setSmallValuesZero_def allocate_def copy_def
        power_sq_def addScalar_def divSkipZero_def thres_def ex_desc_def ex_S_def Let_def)

lemma ex_mv_aTb: "mv_aTb ex_U ex_desc ex_b (peer_blocks ex_comm) = [1, 1]"
  by (simp add: mv_aTb_def local_aTb_def aTb_def vadd_def ex_U_def ex_N ex_b_def
      ex_comm_def numeral_2_eq_2)

lemma ex_UTb:
  "UTb 2 (rows_of ((ex_U, ex_b) # peer_blocks ex_comm))
         (labels_of ((ex_U, ex_b) # peer_blocks ex_comm)) = [1, 1]"
  by (simp add: UTb_def rows_of_def labels_of_def ex_U_def ex_b_def ex_comm_def
      upt_rec[of 0] lessThan_Suc numeral_2_eq_2)

lemma ex_ridgeSolve:
  "ridgeSolve ex_S ex_V ex_U ex_desc ex_b [1] 1 [0, 0] (peer_blocks ex_comm) [0] 1
   = Inr [1 / 2, 0]"
  by (simp add: ridgeSolve_def ex_ratio ex_mv_aTb Let_def matrixVectorBinaryMult_def gemm_def
      dot_def ex_V_def ex_N)

lemma ex_ridgeEig:
  "ridgeEig ex_X ex_comm ex_A ex_desc ex_b [1] 1 [0, 0] [0] 1 = Inr [1 / 2, 0]"
  by (simp add: ridgeEig_def owner_ex U_temp_of_def ex_A_def Let_def ex_X_def ex_ridgeSolve)

lemma ex_closed:
  "V_diag_x 2 ex_V (\<lambda>j. shrinkage (ex_S ! j) 1) [1, 1]
   = [1 / 2, 10 ^ 11 / (1 + 10 ^ 22)]"
  by (simp add: V_diag_x_def shrinkage_def ex_V_def ex_S_def
      upt_rec[of 0] lessThan_Suc numeral_2_eq_2 field_simps)

lemma ex_wf:
  "wf_factors (N ex_desc) ex_S ex_V"
  "\<forall>q\<in>set ((ex_U, ex_b) # peer_blocks ex_comm). wf_rank (N ex_desc) q"
  "shrinkage_defined (N ex_desc) ex_S ([1] ! 0)"
  by (simp_all add: wf_factors_def wf_rank_def wf_block_def shrinkage_defined_def ex_N ex_S_def
      ex_V_def ex_U_def ex_b_def ex_comm_def thres_def less_Suc_eq numeral_2_eq_2)

section \<open>The properties\<close>

subsection \<open>The closed form of the ridge solve\<close>

text \<open>
  C1 (as amended). When \<open>ridgeEig\<close> runs with a stream and a ridge parameter at hand, on
  well-shaped factors \<open>U\<close>, \<open>S\<close>, \<open>V\<close> returned by the distributed SVD, the coefficient
  vector it writes is \<open>V diag(r) U\<^sup>T b\<close> over the rows of all ranks, where
  \<open>r\<^sub>j = s\<^sub>j / (s\<^sub>j\<^sup>2 + alpha[0])\<close> for \<open>\<bar>s\<^sub>j\<bar> \<ge> 1e-10\<close> and \<open>r\<^sub>j = 0\<close> for the singular values
  below the floor; the entries of \<open>coef\<close> past \<open>N\<close> are left as they were. This holds
  whenever every singular value that survives the floor has \<open>s\<^sub>j\<^sup>2 + alpha[0] \<noteq> 0\<close>;
  otherwise a quotient is not finite. In both cases no \<open>N \<times> N\<close> inverse is formed: at
  every point of the solve the only \<open>N \<times> N\<close> buffer holds \<open>V\<close> or \<open>V diag(r)\<close>, and
  \<open>S\<close> and \<open>S_nnz\<close> are vectors of \<open>N\<close> entries (\<open>S_nnz\<close> empty before it is
  allocated); the coefficient vector is what the last statement leaves in \<open>w\<close>.
\<close>

theorem ridgeEig_closed_form:
  assumes "streams \<noteq> []" and "alpha \<noteq> []"
    and "length A \<le> length (blocksOwnedBy ADesc (getRank comm))"
    and "svdEig X A ADesc
           (take (length A) (U_temp_of (blocksOwnedBy ADesc (getRank comm)) (N ADesc)))
         = (U, S, V)"
    and "wf_factors (N ADesc) S V"
    and "\<forall>q\<in>set ((U, b) # peer_blocks comm). wf_rank (N ADesc) q"
  shows "ridgeEig X comm A ADesc b alpha n_alpha coef streams n_streams
         = (if shrinkage_defined (N ADesc) S (alpha ! 0)
            then Inr (V_diag_x (N ADesc) V (\<lambda>j. floored_shrinkage (S ! j) (alpha ! 0))
                        (UTb (N ADesc) (rows_of ((U, b) # peer_blocks comm))
                                       (labels_of ((U, b) # peer_blocks comm)))
                      @ drop (N ADesc) coef)
            else Inl NonFinite) \<and>
         (\<forall>st\<in>set (ridgeSolve_buffers S V U ADesc b alpha coef (peer_blocks comm)).
            (buf_V st = V
             \<or> buf_V st = V_diag (N ADesc) V (\<lambda>j. floored_shrinkage (S ! j) (alpha ! 0))) \<and>
            length (buf_S st) = N ADesc \<and>
            (buf_S_nnz st = [] \<or> length (buf_S_nnz st) = N ADesc)) \<and>
         (shrinkage_defined (N ADesc) S (alpha ! 0) \<longrightarrow>
            ridgeEig X comm A ADesc b alpha n_alpha coef streams n_streams
            = Inr (buf_w (last (ridgeSolve_buffers S V U ADesc b alpha coef (peer_blocks comm)))))"
proof -
  have len: "length S = N ADesc" using assms(5) by (simp add: wf_factors_def)
  have eig: "ridgeEig X comm A ADesc b alpha n_alpha coef streams n_streams
        = ridgeSolve S V U ADesc b alpha n_alpha coef (peer_blocks comm) streams n_streams"
    using assms(1,3,4) by (simp add: ridgeEig_def Let_def U_temp_of_def)
  have val: "ridgeEig X comm A ADesc b alpha n_alpha coef streams n_streams
         = (if shrinkage_defined (N ADesc) S (alpha ! 0)
            then Inr (V_diag_x (N ADesc) V (\<lambda>j. floored_shrinkage (S ! j) (alpha ! 0))
                        (UTb (N ADesc) (rows_of ((U, b) # peer_blocks comm))
                                       (labels_of ((U, b) # peer_blocks comm)))
                      @ drop (N ADesc) coef)
            else Inl NonFinite)"
  proof (cases "shrinkage_defined (N ADesc) S (alpha ! 0)")
    case True
    then show ?thesis
      using eig ridgeSolve_closed[OF assms(1,2,5,6) True] by simp
  next
    case False
    then have "ridgeSolve_S_ratio S ADesc alpha = None" using len by (simp add: S_ratio_None)
    then show ?thesis
      using eig assms(1,2) False by (simp add: ridgeSolve_def)
  qed
  have shapes: "\<forall>st\<in>set (ridgeSolve_buffers S V U ADesc b alpha coef (peer_blocks comm)).
            (buf_V st = V
             \<or> buf_V st = V_diag (N ADesc) V (\<lambda>j. floored_shrinkage (S ! j) (alpha ! 0))) \<and>
            length (buf_S st) = N ADesc \<and>
            (buf_S_nnz st = [] \<or> length (buf_S_nnz st) = N ADesc)"
    using ridgeSolve_buffers_shapes[OF assms(5,6)] by blast
  have lastw: "shrinkage_defined (N ADesc) S (alpha ! 0) \<longrightarrow>
            ridgeEig X comm A ADesc b alpha n_alpha coef streams n_streams
            = Inr (buf_w (last (ridgeSolve_buffers S V U ADesc b alpha coef (peer_blocks comm))))"
    using eig ridgeSolve_last_buffer[OF assms(1,2) S_ratio_eq[OF len]] by simp
  show ?thesis using val shapes lastw by blast
qed

theorem ridgeEig_closed_form_witness:
  "[0::nat] \<noteq> [] \<and> [1::real] \<noteq> [] \<and>
   length ex_A \<le> length (blocksOwnedBy ex_desc (getRank ex_comm)) \<and>
   svdEig ex_X ex_A ex_desc
     (take (length ex_A) (U_temp_of (blocksOwnedBy ex_desc (getRank ex_comm)) (N ex_desc)))
     = (ex_U, ex_S, ex_V) \<and>
   wf_factors (N ex_desc) ex_S ex_V \<and>
   list_all (wf_rank (N ex_desc)) ((ex_U, ex_b) # peer_blocks ex_comm) \<and>
   shrinkage_defined (N ex_desc) ex_S ([1] ! 0) \<and>
   ridgeEig ex_X ex_comm ex_A ex_desc ex_b [1] 1 [0, 0] [0] 1
     = Inr (V_diag_x (N ex_desc) ex_V (\<lambda>j. floored_shrinkage (ex_S ! j) ([1] ! 0))
              (UTb (N ex_desc) (rows_of ((ex_U, ex_b) # peer_blocks ex_comm))
                               (labels_of ((ex_U, ex_b) # peer_blocks ex_comm)))
            @ drop (N ex_desc) [0, 0]) \<and>
   ridgeEig ex_X ex_comm ex_A ex_desc ex_b [1] 1 [0, 0] [0] 1 = Inr [1 / 2, 0] \<and>
   list_all (\<lambda>st. (buf_V st = ex_V
                    \<or> buf_V st = V_diag (N ex_desc) ex_V
                                   (\<lambda>j. floored_shrinkage (ex_S ! j) ([1] ! 0))) \<and>
                  length (buf_S st) = N ex_desc \<and>
                  (buf_S_nnz st = [] \<or> length (buf_S_nnz st) = N ex_desc))
     (ridgeSolve_buffers ex_S ex_V ex_U ex_desc ex_b [1] [0, 0] (peer_blocks ex_comm)) \<and>
   buf_w (last (ridgeSolve_buffers ex_S ex_V ex_U ex_desc ex_b [1] [0, 0] (peer_blocks ex_comm)))
     = [1 / 2, 0] \<and>
   [- 1 :: real] \<noteq> [] \<and> \<not> shrinkage_defined (N ex_desc) ex_S ([- 1] ! 0) \<and>
   ridgeEig ex_X ex_comm ex_A ex_desc ex_b [- 1] 1 [0, 0] [0] 1 = Inl NonFinite"
proof -
  have h1: "[0::nat] \<noteq> []" "[1::real] \<noteq> []" by simp_all
  have h2: "[- 1 :: real] \<noteq> []" by simp
  have nd: "\<not> shrinkage_defined (N ex_desc) ex_S ([- 1] ! 0)"
    by (simp add: shrinkage_defined_def ex_N ex_S_def thres_def) (rule exI[of _ 0], simp)
  have h3: "length ex_A \<le> length (blocksOwnedBy ex_desc (getRank ex_comm))"
    by (simp add: owner_ex ex_A_def)
  have h4: "svdEig ex_X ex_A ex_desc
     (take (length ex_A) (U_temp_of (blocksOwnedBy ex_desc (getRank ex_comm)) (N ex_desc)))
     = (ex_U, ex_S, ex_V)"
    by (simp add: ex_X_def)
  note inst = ridgeEig_closed_form[OF h1 h3 h4 ex_wf(1,2), where n_alpha = 1
      and coef = "[0, 0]" and n_streams = 1]
  have wfr: "list_all (wf_rank (N ex_desc)) ((ex_U, ex_b) # peer_blocks ex_comm)"
    using ex_wf(2) unfolding list_all_iff .
  have v: "ridgeEig ex_X ex_comm ex_A ex_desc ex_b [1] 1 [0, 0] [0] 1
     = Inr (V_diag_x (N ex_desc) ex_V (\<lambda>j. floored_shrinkage (ex_S ! j) ([1] ! 0))
              (UTb (N ex_desc) (rows_of ((ex_U, ex_b) # peer_blocks ex_comm))
                               (labels_of ((ex_U, ex_b) # peer_blocks ex_comm)))
            @ drop (N ex_desc) [0, 0])"
    using inst ex_wf(3) by (simp only: if_True)
  have bufs: "list_all (\<lambda>st. (buf_V st = ex_V
                    \<or> buf_V st = V_diag (N ex_desc) ex_V
                                   (\<lambda>j. floored_shrinkage (ex_S ! j) ([1] ! 0))) \<and>
                  length (buf_S st) = N ex_desc \<and>
                  (buf_S_nnz st = [] \<or> length (buf_S_nnz st) = N ex_desc))
     (ridgeSolve_buffers ex_S ex_V ex_U ex_desc ex_b [1] [0, 0] (peer_blocks ex_comm))"
    unfolding list_all_iff using inst by blast
  have "ridgeEig ex_X ex_comm ex_A ex_desc ex_b [1] 1 [0, 0] [0] 1
        = Inr (buf_w (last (ridgeSolve_buffers ex_S ex_V ex_U ex_desc ex_b [1] [0, 0]
                 (peer_blocks ex_comm))))"
    using inst ex_wf(3) by blast
  then have w: "buf_w (last (ridgeSolve_buffers ex_S ex_V ex_U ex_desc ex_b [1] [0, 0]
                  (peer_blocks ex_comm))) = [1 / 2, 0]"
    unfolding ex_ridgeEig by simp
  have nf: "ridgeEig ex_X ex_comm ex_A ex_desc ex_b [- 1] 1 [0, 0] [0] 1 = Inl NonFinite"
    using ridgeEig_closed_form[OF h1(1) h2 h3 h4 ex_wf(1,2), where n_alpha = 1
        and coef = "[0, 0]" and n_streams = 1] nd
    by (simp only: if_False)
  show ?thesis
    using h1 h2 h3 h4 ex_wf(1,3) wfr v ex_ridgeEig bufs w nd nf by blast
qed

text \<open>
  Counterexample to C1 as stated: with \<open>S = (1, 1e-11)\<close>, \<open>U = V = I\<close>, \<open>b = (1, 1)\<close> and
  \<open>alpha[0] = 1\<close> the solve writes \<open>(1/2, 0)\<close>, while
  \<open>V diag(s / (s\<^sup>2 + \<alpha>)) U\<^sup>T b\<close> has the second entry \<open>1e11 / (1 + 1e22)\<close>.
\<close>

theorem closed_form_counterexample:
  "ridgeEig ex_X ex_comm ex_A ex_desc ex_b [1] 1 [0, 0] [0] 1
   \<noteq> Inr (V_diag_x 2 ex_V (\<lambda>j. shrinkage (ex_S ! j) ([1] ! 0))
            (UTb 2 (rows_of ((ex_U, ex_b) # peer_blocks ex_comm))
                   (labels_of ((ex_U, ex_b) # peer_blocks ex_comm))))"
  by (simp add: ex_ridgeEig ex_UTb ex_closed)

subsection \<open>The dispatch on the algorithm\<close>

text \<open>
  C2 (as amended). On a rank that owns a block, an OLS or Ridge fit fails with the fatal
  ``not implemented'' assertion, without having called the solver, exactly when
  \<open>algo \<noteq> 1\<close> or \<open>N = 1\<close>; the solver is called exactly when \<open>algo = 1\<close> and
  \<open>N \<noteq> 1\<close>. There is no fallback to another algorithm.
\<close>

theorem dispatch_on_algo:
  assumes "blocksOwnedBy input_desc (getRank comm) \<noteq> []"
  shows "((snd (OLS_fit_impl X comm input_data input_desc labels coef intercept fit_intercept
                 normalize' algo) = Inl NotImplemented \<and>
           LstsqEig \<notin> set (fst (OLS_fit_impl X comm input_data input_desc labels coef intercept
                 fit_intercept normalize' algo)))
          \<longleftrightarrow> (algo \<noteq> 1 \<or> N input_desc = 1)) \<and>
         (LstsqEig \<in> set (fst (OLS_fit_impl X comm input_data input_desc labels coef intercept
                 fit_intercept normalize' algo))
          \<longleftrightarrow> (algo = 1 \<and> N input_desc \<noteq> 1)) \<and>
         ((snd (Ridge_fit_impl X comm input_data input_desc labels alpha n_alpha coef intercept
                 fit_intercept normalize' algo) = Inl NotImplemented \<and>
           RidgeEig \<notin> set (fst (Ridge_fit_impl X comm input_data input_desc labels alpha n_alpha
                 coef intercept fit_intercept normalize' algo)))
          \<longleftrightarrow> (algo \<noteq> 1 \<or> N input_desc = 1)) \<and>
         (RidgeEig \<in> set (fst (Ridge_fit_impl X comm input_data input_desc labels alpha n_alpha
                 coef intercept fit_intercept normalize' algo))
          \<longleftrightarrow> (algo = 1 \<and> N input_desc \<noteq> 1))"
proof -
  note s = streams_of_owner[OF assms]
  have ols: "((snd (OLS_fit_impl X comm input_data input_desc labels coef intercept fit_intercept
                 normalize' algo) = Inl NotImplemented \<and>
           LstsqEig \<notin> set (fst (OLS_fit_impl X comm input_data input_desc labels coef intercept
                 fit_intercept normalize' algo)))
          \<longleftrightarrow> (algo \<noteq> 1 \<or> N input_desc = 1)) \<and>
         (LstsqEig \<in> set (fst (OLS_fit_impl X comm input_data input_desc labels coef intercept
                 fit_intercept normalize' algo))
          \<longleftrightarrow> (algo = 1 \<and> N input_desc \<noteq> 1))"
    using s by (auto simp: OLS_fit_impl_def OLS_fit_impl_streams_def Let_def
        split: prod.splits if_splits)
  have ridge: "((snd (Ridge_fit_impl X comm input_data input_desc labels alpha n_alpha coef intercept
                 fit_intercept normalize' algo) = Inl NotImplemented \<and>
           RidgeEig \<notin> set (fst (Ridge_fit_impl X comm input_data input_desc labels alpha n_alpha
                 coef intercept fit_intercept normalize' algo)))
          \<longleftrightarrow> (algo \<noteq> 1 \<or> N input_desc = 1)) \<and>
         (RidgeEig \<in> set (fst (Ridge_fit_impl X comm input_data input_desc labels alpha n_alpha
                 coef intercept fit_intercept normalize' algo))
          \<longleftrightarrow> (algo = 1 \<and> N input_desc \<noteq> 1))"
    using s by (auto simp: Ridge_fit_impl_def Ridge_fit_impl_streams_def Let_def
        split: prod.splits if_splits sum.splits)
  show ?thesis using ols ridge by blast
qed

theorem dispatch_on_algo_witness:
  "blocksOwnedBy ex_desc (getRank ex_comm) \<noteq> [] \<and>
   snd (OLS_fit_impl ex_X ex_comm ex_A ex_desc ex_b [0, 0] 0 False False 2) = Inl NotImplemented \<and>
   LstsqEig \<notin> set (fst (OLS_fit_impl ex_X ex_comm ex_A ex_desc ex_b [0, 0] 0 False False 2)) \<and>
   snd (Ridge_fit_impl ex_X ex_comm ex_A ex_desc ex_b [1] 1 [0, 0] 0 False False 2)
     = Inl NotImplemented \<and>
   RidgeEig \<notin> set (fst (Ridge_fit_impl ex_X ex_comm ex_A ex_desc ex_b [1] 1 [0, 0] 0 False False 2))"
proof -
  have h: "blocksOwnedBy ex_desc (getRank ex_comm) \<noteq> []" by (simp add: owner_ex)
  show ?thesis
    using dispatch_on_algo[OF h, of ex_X ex_A ex_b "[0, 0]" 0 False False 2 "[1]" 1] h
    by simp
qed

text \<open>
  Counterexample to C2 as stated (only \<open>algo = 1\<close> with \<open>N > 1\<close> proceeds), at
  \<open>N = 0\<close>: the dispatch rejects \<open>N = 1\<close> only, and a fit with \<open>algo = 1\<close> on a
  descriptor without columns calls the solver.
\<close>

theorem dispatch_N0_counterexample:
  "LstsqEig \<in> set (fst (OLS_fit_impl ex_X ex_comm ex_A_N0 ex_desc_N0 ex_b [] 0 False False 1)) \<and>
   RidgeEig \<in> set (fst (Ridge_fit_impl ex_X ex_comm ex_A_N0 ex_desc_N0 ex_b [1] 1 [] 0 False False 1)) \<and>
   \<not> 1 < N ex_desc_N0"
  by (simp add: OLS_fit_impl_def OLS_fit_impl_streams_def Ridge_fit_impl_def
      Ridge_fit_impl_streams_def blocksOwnedBy_def ex_desc_N0_def ex_comm_def
      cudaStreamCreate_all_def Let_def split: sum.splits)

subsection \<open>Flooring of small singular values\<close>

text \<open>
  C3. In the ridge shrinkage solve, a singular value of magnitude below \<open>1e-10\<close> is first
  set to exactly zero, and at such a position the elementwise ratio \<open>S / (S\<^sup>2 + \<alpha>)\<close> is
  exactly \<open>0\<close>: the division is skipped, so that no infinite or undefined quotient
  arises there, whatever the vector \<open>S\<close> and whatever \<open>\<alpha>\<close>.
\<close>

theorem floored_ratio_zero:
  assumes "j < N UDesc" and "j < length S" and "\<bar>S ! j\<bar> < thres"
  shows "ridgeSolve_S_floored S UDesc ! j = 0 \<and>
         quotients (ridgeSolve_S_floored S UDesc) (ridgeSolve_S_nnz S UDesc alpha) (N UDesc) ! j
           = Some 0 \<and>
         (\<forall>S2. ridgeSolve_S_ratio S UDesc alpha = Some S2 \<longrightarrow> S2 ! j = 0)"
proof -
  let ?S1 = "ridgeSolve_S_floored S UDesc"
  let ?Sn = "ridgeSolve_S_nnz S UDesc alpha"
  let ?qs = "quotients ?S1 ?Sn (N UDesc)"
  have l1: "length ?S1 = length S"
    by (simp add: ridgeSolve_S_floored_def setSmallValuesZero_def)
  have ln: "length ?Sn = min (N UDesc) (length S)"
    using l1 by (simp add: ridgeSolve_S_nnz_def Let_def addScalar_def power_sq_def copy_def
        allocate_def)
  have z: "?S1 ! j = 0"
    using assms by (simp add: ridgeSolve_S_floored_def setSmallValuesZero_def nth_inplace)
  have lq: "j < length ?qs" using assms l1 ln by (simp add: quotients_def)
  have q: "?qs ! j = Some 0"
    using assms l1 ln z by (simp add: quotients_def divSkipZero_def)
  have "S2 ! j = 0" if "ridgeSolve_S_ratio S UDesc alpha = Some S2" for S2
  proof -
    have "S2 = map the ?qs @ drop (N UDesc) ?S1"
      using that by (simp add: ridgeSolve_S_ratio_def matrixVectorBinaryDivSkipZero_def Let_def
          split: if_splits)
    then show ?thesis using lq q by (simp add: nth_append)
  qed
  then show ?thesis using z q by simp
qed

theorem floored_ratio_zero_witness:
  "(1::nat) < N ex_desc \<and> 1 < length ex_S \<and> \<bar>ex_S ! 1\<bar> < thres \<and>
   ridgeSolve_S_floored ex_S ex_desc ! 1 = 0 \<and>
   quotients (ridgeSolve_S_floored ex_S ex_desc) (ridgeSolve_S_nnz ex_S ex_desc [1]) (N ex_desc) ! 1
     = Some 0 \<and>
   ridgeSolve_S_ratio ex_S ex_desc [1] = Some [1 / 2, 0]"
proof -
  have h: "(1::nat) < N ex_desc" "1 < length ex_S" "\<bar>ex_S ! 1\<bar> < thres"
    by (simp_all add: ex_desc_def ex_S_def thres_def)
  show ?thesis
    using floored_ratio_zero[OF h, of "[1]"] h ex_ratio by simp
qed

subsection \<open>Predict and the ownership of blocks\<close>

text \<open>
  C4 (as amended). A predict call processes every one of the \<open>n_parts\<close> blocks passed
  to it, whatever rank the pair of a block records. Its outcome (buffers and kernels
  issued) does not depend on the rank of the caller nor on the recorded ranks, only on
  the recorded sizes; on well-formed arrays it returns, having issued the two kernels of
  each of the \<open>n_parts\<close> blocks and set the buffer of each to the predictions of its rows.
  What a call that returns leaves unchanged are the entries of \<open>preds\<close> past
  \<open>n_parts\<close> (and, within a block, the entries past its size).
\<close>

theorem predict_ignores_ownership:
  "(map size_rsp rank_sizes = map size_rsp rank_sizes' \<longrightarrow>
      predict_impl comm rank_sizes n_parts input n_rows n_cols coef intercept preds
      = predict_impl comm' rank_sizes' n_parts input n_rows n_cols coef intercept preds) \<and>
   (wf_predict rank_sizes n_parts input n_cols coef preds \<longrightarrow>
      (\<exists>st. predict_impl comm rank_sizes n_parts input n_rows n_cols coef intercept preds = Inr st \<and>
            (\<forall>i<n_parts. preds_of st ! i
                          = predicted rank_sizes input n_cols coef intercept preds i) \<and>
            issued st = concat (map (\<lambda>i. [(i, Gemm i), (i, AddScalar i)]) [0..<n_parts]))) \<and>
   (\<forall>st. predict_impl comm rank_sizes n_parts input n_rows n_cols coef intercept preds = Inr st
          \<longrightarrow> length (preds_of st) = length preds \<and>
              drop n_parts (preds_of st) = drop n_parts preds)"
proof (intro conjI)
  show "map size_rsp rank_sizes = map size_rsp rank_sizes' \<longrightarrow>
      predict_impl comm rank_sizes n_parts input n_rows n_cols coef intercept preds
      = predict_impl comm' rank_sizes' n_parts input n_rows n_cols coef intercept preds"
  proof
    assume eq: "map size_rsp rank_sizes = map size_rsp rank_sizes'"
    have len: "length rank_sizes = length rank_sizes'"
      using eq by (rule map_eq_imp_length_eq)
    have "map size_rsp (take n_parts rank_sizes) = map size_rsp (take n_parts rank_sizes')"
      using eq by (simp add: take_map[symmetric])
    then have "predict_loop (take n_parts input)
                 \<lparr>M = n_rows, N = n_cols, partsToRanks = take n_parts rank_sizes,
                    desc_rank = getRank comm\<rparr> coef intercept streams n_streams is st
               = predict_loop (take n_parts input)
                 \<lparr>M = n_rows, N = n_cols, partsToRanks = take n_parts rank_sizes',
                    desc_rank = getRank comm'\<rparr> coef intercept streams n_streams is st"
      for streams n_streams "is" st
      by (intro predict_loop_sizes) simp_all
    then show "predict_impl comm rank_sizes n_parts input n_rows n_cols coef intercept preds
        = predict_impl comm' rank_sizes' n_parts input n_rows n_cols coef intercept preds"
      using len by (simp add: predict_impl_def predict_impl_streams_def Let_def)
  qed
  show "wf_predict rank_sizes n_parts input n_cols coef preds \<longrightarrow>
      (\<exists>st. predict_impl comm rank_sizes n_parts input n_rows n_cols coef intercept preds = Inr st \<and>
            (\<forall>i<n_parts. preds_of st ! i
                          = predicted rank_sizes input n_cols coef intercept preds i) \<and>
            issued st = concat (map (\<lambda>i. [(i, Gemm i), (i, AddScalar i)]) [0..<n_parts]))"
  proof
    assume wf: "wf_predict rank_sizes n_parts input n_cols coef preds"
    show "\<exists>st. predict_impl comm rank_sizes n_parts input n_rows n_cols coef intercept preds = Inr st \<and>
            (\<forall>i<n_parts. preds_of st ! i
                          = predicted rank_sizes input n_cols coef intercept preds i) \<and>
            issued st = concat (map (\<lambda>i. [(i, Gemm i), (i, AddScalar i)]) [0..<n_parts])"
      using predict_impl_result[OF wf, of comm n_rows intercept] by (simp add: nth_append)
  qed
  show "\<forall>st. predict_impl comm rank_sizes n_parts input n_rows n_cols coef intercept preds = Inr st
          \<longrightarrow> length (preds_of st) = length preds \<and>
              drop n_parts (preds_of st) = drop n_parts preds"
  proof (intro allI impI)
    fix st
    assume run: "predict_impl comm rank_sizes n_parts input n_rows n_cols coef intercept preds
                 = Inr st"
    then obtain st0 where
      st0: "predict_impl_streams (take n_parts input)
              \<lparr>M = n_rows, N = n_cols, partsToRanks = take n_parts rank_sizes,
                 desc_rank = getRank comm\<rparr> coef intercept (take n_parts preds)
              (cudaStreamCreate_all n_parts) (int n_parts) = Inr st0"
      and st: "st = st0\<lparr>preds_of := preds_of st0 @ drop n_parts preds\<rparr>"
      and len: "n_parts \<le> length preds"
      by (auto simp: predict_impl_def Let_def split: if_splits sum.splits)
    have "length (preds_of st0) = n_parts"
      using st0 len by (auto simp: predict_impl_streams_def dest: predict_loop_length)
    then show "length (preds_of st) = length preds \<and>
               drop n_parts (preds_of st) = drop n_parts preds"
      using st len by simp
  qed
qed

theorem predict_ignores_ownership_witness:
  "map size_rsp ex_rank_sizes = map size_rsp [\<lparr>rank = 0, size_rsp = 1\<rparr>] \<and>
   wf_predict ex_rank_sizes 1 ex_input 2 [3, 0] ex_preds \<and>
   predict_impl ex_comm ex_rank_sizes 1 ex_input 1 2 [3, 0] 1 ex_preds
     = predict_impl ex_comm [\<lparr>rank = 0, size_rsp = 1\<rparr>] 1 ex_input 1 2 [3, 0] 1 ex_preds \<and>
   (\<exists>st. predict_impl ex_comm ex_rank_sizes 1 ex_input 1 2 [3, 0] 1 ex_preds = Inr st \<and>
         preds_of st ! 0 = predicted ex_rank_sizes ex_input 2 [3, 0] 1 ex_preds 0 \<and>
         ptr (preds_of st ! 0) = [7] \<and>
         issued st = [(0, Gemm 0), (0, AddScalar 0)] \<and>
         length (preds_of st) = length ex_preds)"
proof -
  have h: "map size_rsp ex_rank_sizes = map size_rsp [\<lparr>rank = 0, size_rsp = 1\<rparr>]"
    "wf_predict ex_rank_sizes 1 ex_input 2 [3, 0] ex_preds"
    by (simp_all add: wf_predict_def ex_rank_sizes_def ex_input_def ex_preds_def)
  note inst = predict_ignores_ownership[of ex_rank_sizes "[\<lparr>rank = 0, size_rsp = 1\<rparr>]" ex_comm 1
      ex_input 1 2 "[3, 0]" 1 ex_preds ex_comm]
  from inst h(2) obtain st where
    run: "predict_impl ex_comm ex_rank_sizes 1 ex_input 1 2 [3, 0] 1 ex_preds = Inr st"
    and blk: "preds_of st ! 0 = predicted ex_rank_sizes ex_input 2 [3, 0] 1 ex_preds 0"
    and log: "issued st = concat (map (\<lambda>i. [(i, Gemm i), (i, AddScalar i)]) [0..<1])"
    by auto
  have p: "ptr (preds_of st ! 0) = [7]"
    using blk
    by (simp add: predicted_def block_rows_def row_prediction_def ex_rank_sizes_def ex_input_def
        ex_preds_def lessThan_Suc numeral_2_eq_2)
  have l: "length (preds_of st) = length ex_preds" using inst run by blast
  have e: "predict_impl ex_comm ex_rank_sizes 1 ex_input 1 2 [3, 0] 1 ex_preds
     = predict_impl ex_comm [\<lparr>rank = 0, size_rsp = 1\<rparr>] 1 ex_input 1 2 [3, 0] 1 ex_preds"
    using inst h(1) by blast
  have log': "issued st = [(0, Gemm 0), (0, AddScalar 0)]" using log by simp
  show ?thesis using h e run blk p log' l by blast
qed

text \<open>
  Counterexample to C4 as stated: rank 0 calls predict with a single block recorded as
  owned by rank 1, and the prediction buffer of that block is overwritten (\<open>0\<close> becomes
  \<open>2 \<cdot> 3 + 0 \<cdot> 0 + 1 = 7\<close>).
\<close>

theorem predict_ownership_counterexample:
  "rank (ex_rank_sizes ! 0) \<noteq> getRank ex_comm \<and>
   predict_impl ex_comm ex_rank_sizes 1 ex_input 1 2 [3, 0] 1 ex_preds
     = Inr \<lparr>preds_of = [\<lparr>ptr = [7], totalSize = 1\<rparr>],
            issued = [(0, Gemm 0), (0, AddScalar 0)]\<rparr> \<and>
   [\<lparr>ptr = [7 :: real], totalSize = 1\<rparr>] \<noteq> ex_preds"
  by (simp add: predict_impl_def predict_impl_streams_def predict_block_def gemm_def addScalar_def
      dot_def stream_index_def cudaStreamCreate_all_def ex_rank_sizes_def ex_comm_def ex_input_def
      ex_preds_def Let_def)

subsection \<open>Fitting without an intercept\<close>

text \<open>
  C5 (as amended). An OLS or Ridge fit with \<open>fit_intercept = false\<close> calls neither
  \<open>preProcessData\<close> nor \<open>postProcessData\<close>. When it gets past the dispatch (the caller
  owns a block, \<open>algo = 1\<close> and \<open>N \<noteq> 1\<close>), the solver receives the partition data as
  given, the data is returned as given, and the intercept is exactly \<open>0\<close>, whatever the
  data, the labels, the normalize flag and \<open>alpha\<close> (for Ridge: provided the solve itself
  returns).
\<close>

theorem fit_without_intercept:
  "PreProcessData \<notin> set (fst (OLS_fit_impl X comm input_data input_desc labels coef intercept
       False normalize' algo)) \<and>
   PostProcessData \<notin> set (fst (OLS_fit_impl X comm input_data input_desc labels coef intercept
       False normalize' algo)) \<and>
   PreProcessData \<notin> set (fst (Ridge_fit_impl X comm input_data input_desc labels alpha n_alpha
       coef intercept False normalize' algo)) \<and>
   PostProcessData \<notin> set (fst (Ridge_fit_impl X comm input_data input_desc labels alpha n_alpha
       coef intercept False normalize' algo)) \<and>
   (blocksOwnedBy input_desc (getRank comm) \<noteq> [] \<and> algo = 1 \<and> N input_desc \<noteq> 1 \<longrightarrow>
      OLS_fit_impl X comm input_data input_desc labels coef intercept False normalize' algo
        = ([LstsqEig],
           Inr \<lparr>input_data_out = input_data, labels_out = labels,
                coef_out = lstsqEig X input_data input_desc labels coef, intercept_out = 0\<rparr>) \<and>
      Ridge_fit_impl X comm input_data input_desc labels alpha n_alpha coef intercept False
          normalize' algo
        = ([RidgeEig],
           case ridgeEig X comm input_data input_desc labels alpha n_alpha coef
                  (cudaStreamCreate_all (length (blocksOwnedBy input_desc (getRank comm))))
                  (int (length (blocksOwnedBy input_desc (getRank comm)))) of
             Inl e \<Rightarrow> Inl e
           | Inr c \<Rightarrow> Inr \<lparr>input_data_out = input_data, labels_out = labels, coef_out = c,
                           intercept_out = 0\<rparr>))"
  by (auto simp: OLS_fit_impl_def OLS_fit_impl_streams_def Ridge_fit_impl_def
      Ridge_fit_impl_streams_def Let_def cudaStreamCreate_all_Nil split: sum.splits)

theorem fit_without_intercept_witness:
  "blocksOwnedBy ex_desc (getRank ex_comm) \<noteq> [] \<and> (1::int) = 1 \<and> N ex_desc \<noteq> 1 \<and>
   OLS_fit_impl ex_X ex_comm ex_A ex_desc ex_b [0, 0] 7 False True 1
     = ([LstsqEig],
        Inr \<lparr>input_data_out = ex_A, labels_out = ex_b, coef_out = [1, 10 ^ 11],
             intercept_out = 0\<rparr>) \<and>
   Ridge_fit_impl ex_X ex_comm ex_A ex_desc ex_b [1] 1 [0, 0] 7 False True 1
     = ([RidgeEig],
        Inr \<lparr>input_data_out = ex_A, labels_out = ex_b, coef_out = [1 / 2, 0],
             intercept_out = 0\<rparr>)"
proof -
  have h: "blocksOwnedBy ex_desc (getRank ex_comm) \<noteq> []" "N ex_desc \<noteq> 1"
    by (simp_all add: owner_ex ex_N)
  have l: "lstsqEig ex_X ex_A ex_desc ex_b [0, 0] = [1, 10 ^ 11]"
    by (simp add: ex_X_def)
  have r: "ridgeEig ex_X ex_comm ex_A ex_desc ex_b [1] 1 [0, 0]
             (cudaStreamCreate_all (length (blocksOwnedBy ex_desc (getRank ex_comm))))
             (int (length (blocksOwnedBy ex_desc (getRank ex_comm))))
           = Inr [1 / 2, 0]"
    using ex_ridgeEig by (simp add: owner_ex cudaStreamCreate_all_def)
  show ?thesis
    using fit_without_intercept[of ex_X ex_comm ex_A ex_desc ex_b "[0, 0]" 7 True 1 "[1]" 1] h
    by (simp add: l r)
qed

text \<open>
  Counterexample to C5 as stated: on a design matrix with a single column the call with
  \<open>algo = 1\<close> and \<open>fit_intercept = false\<close> ends in the fatal assertion before the
  intercept is written (as does every call with \<open>algo \<noteq> 1\<close>).
\<close>

theorem fit_without_intercept_counterexample:
  "snd (OLS_fit_impl ex_X ex_comm ex_A_N1 ex_desc_N1 ex_b [0] 7 False False 1)
     = Inl NotImplemented \<and>
   snd (Ridge_fit_impl ex_X ex_comm ex_A_N1 ex_desc_N1 ex_b [1] 1 [0] 7 False False 1)
     = Inl NotImplemented"
  by (simp add: OLS_fit_impl_def OLS_fit_impl_streams_def Ridge_fit_impl_def
      Ridge_fit_impl_streams_def blocksOwnedBy_def ex_desc_N1_def ex_comm_def
      cudaStreamCreate_all_def Let_def)

subsection \<open>The prediction of a block\<close>

text \<open>
  C6. On well-formed arrays and with \<open>n_streams > 0\<close> streams, predict returns, and for
  every block \<open>i\<close> the first \<open>local_size\<close> entries of its prediction buffer are the
  products of the block's \<open>local_size\<close> rows of \<open>N\<close> entries with the coefficient
  vector, each plus the intercept (the rest of the buffer is left as it was); the two
  kernels of block \<open>i\<close> are issued, in this order, on stream \<open>i mod n_streams\<close>.
\<close>

theorem predict_block_product:
  assumes "0 < n_streams" and "length streams = nat n_streams"
    and "wf_predict (partsToRanks input_desc) (length input_data) input_data (N input_desc)
           coef preds"
  shows "\<exists>st. predict_impl_streams input_data input_desc coef intercept preds streams n_streams
               = Inr st \<and>
           (\<forall>i<length input_data.
              ptr (preds_of st ! i)
              = map (row_prediction (N input_desc) coef intercept)
                    (take (size_rsp (partsToRanks input_desc ! i)) (ptr (input_data ! i)))
                @ drop (size_rsp (partsToRanks input_desc ! i)) (ptr (preds ! i))) \<and>
           issued st
           = concat (map (\<lambda>i. [(streams ! (i mod nat n_streams), Gemm i),
                               (streams ! (i mod nat n_streams), AddScalar i)])
                      [0..<length input_data])"
proof -
  let ?st = "\<lparr>preds_of = map (\<lambda>k. if k < length input_data
                                   then block_out input_data input_desc coef intercept preds k
                                   else preds ! k) [0..<length preds],
                issued = concat (map (issue streams n_streams) [0..<length input_data])\<rparr>"
  have len: "length input_data \<le> length (partsToRanks input_desc)"
    "length input_data \<le> length preds"
    using assms(3) by (simp_all add: wf_predict_def)
  have si: "\<forall>i<length input_data. stream_index i n_streams < length streams"
    using assms(1,2) by (simp add: stream_index_pos)
  have inb: "\<forall>i<length input_data. block_in_bounds input_data input_desc coef preds i"
    using wf_predict_in_bounds[OF assms(3) _ refl refl refl refl] by simp
  have run: "predict_impl_streams input_data input_desc coef intercept preds streams n_streams
             = Inr ?st"
    using assms(1) len si inb by (intro predict_impl_streams_result) simp_all
  have blocks: "\<forall>i<length input_data.
              ptr (preds_of ?st ! i)
              = map (row_prediction (N input_desc) coef intercept)
                    (take (size_rsp (partsToRanks input_desc ! i)) (ptr (input_data ! i)))
                @ drop (size_rsp (partsToRanks input_desc ! i)) (ptr (preds ! i))"
  proof (intro allI impI)
    fix i assume i: "i < length input_data"
    then have "preds_of ?st ! i = block_out input_data input_desc coef intercept preds i"
      using len(2) by simp
    then show "ptr (preds_of ?st ! i)
              = map (row_prediction (N input_desc) coef intercept)
                    (take (size_rsp (partsToRanks input_desc ! i)) (ptr (input_data ! i)))
                @ drop (size_rsp (partsToRanks input_desc ! i)) (ptr (preds ! i))"
      using block_out_eq[OF i assms(3) refl refl refl refl, of intercept]
      by (simp add: block_rows_def)
  qed
  have "issue streams n_streams
        = (\<lambda>i. [(streams ! (i mod nat n_streams), Gemm i),
                 (streams ! (i mod nat n_streams), AddScalar i)])"
    using assms(1) by (intro ext) (simp add: issue_def stream_index_pos)
  then have "issued ?st
           = concat (map (\<lambda>i. [(streams ! (i mod nat n_streams), Gemm i),
                               (streams ! (i mod nat n_streams), AddScalar i)])
                      [0..<length input_data])"
    by simp
  then show ?thesis using run blocks by blast
qed

theorem predict_block_product_witness:
  "(0::int) < 1 \<and> length [0::nat] = nat 1 \<and>
   wf_predict (partsToRanks ex_desc1) (length ex_input1) ex_input1 (N ex_desc1) [1, 1] ex_preds1 \<and>
   (\<exists>st. predict_impl_streams ex_input1 ex_desc1 [1, 1] 1 ex_preds1 [0] 1 = Inr st \<and>
         ptr (preds_of st ! 0) = [4] \<and> ptr (preds_of st ! 1) = [8, 12] \<and>
         issued st = [(0, Gemm 0), (0, AddScalar 0), (0, Gemm 1), (0, AddScalar 1)])"
proof -
  have h: "(0::int) < 1" "length [0::nat] = nat 1"
    "wf_predict (partsToRanks ex_desc1) (length ex_input1) ex_input1 (N ex_desc1) [1, 1] ex_preds1"
    by (simp_all add: wf_predict_def ex_desc1_def ex_sizes1_def ex_input1_def ex_preds1_def
        less_Suc_eq numeral_2_eq_2)
  from predict_block_product[OF h, of 1] obtain st where
    run: "predict_impl_streams ex_input1 ex_desc1 [1, 1] 1 ex_preds1 [0] 1 = Inr st"
    and blocks: "\<forall>i<length ex_input1.
              ptr (preds_of st ! i)
              = map (row_prediction (N ex_desc1) [1, 1] 1)
                    (take (size_rsp (partsToRanks ex_desc1 ! i)) (ptr (ex_input1 ! i)))
                @ drop (size_rsp (partsToRanks ex_desc1 ! i)) (ptr (ex_preds1 ! i))"
    and log: "issued st
           = concat (map (\<lambda>i. [([0] ! (i mod nat 1), Gemm i), ([0] ! (i mod nat 1), AddScalar i)])
                      [0..<length ex_input1])"
    by blast
  have "ptr (preds_of st ! 0) = [4]" "ptr (preds_of st ! 1) = [8, 12]"
    using blocks
    by (simp_all add: ex_desc1_def ex_sizes1_def ex_input1_def ex_preds1_def row_prediction_def
        lessThan_Suc numeral_2_eq_2)
  moreover have "issued st = [(0, Gemm 0), (0, AddScalar 0), (0, Gemm 1), (0, AddScalar 1)]"
    using log by (simp add: ex_input1_def upt_rec[of 0] numeral_2_eq_2)
  ultimately show ?thesis using h run by blast
qed

subsection \<open>Only the first ridge parameter is used\<close>

text \<open>
  C7. The outcome of a ridge fit (the coefficients, the intercept, the data handed back,
  the calls made, or the failure) depends on \<open>alpha\<close> only through \<open>alpha[0]\<close>: two
  runs on the same data whose \<open>alpha\<close> arrays agree at index 0 have the same outcome,
  whatever \<open>n_alpha\<close> and the entries at index 1 and above.
\<close>

theorem ridge_fit_alpha0_only:
  assumes "alpha \<noteq> []" and "alpha' \<noteq> []" and "alpha ! 0 = alpha' ! 0"
  shows "Ridge_fit_impl X comm input_data input_desc labels alpha n_alpha coef intercept
           fit_intercept normalize' algo
         = Ridge_fit_impl X comm input_data input_desc labels alpha' n_alpha' coef intercept
           fit_intercept normalize' algo"
  by (simp add: Ridge_fit_impl_def Ridge_fit_impl_streams_def Let_def
      ridgeEig_alpha0[OF assms, of _ _ _ _ _ n_alpha _ _ _ n_alpha'])

theorem ridge_fit_alpha0_only_witness:
  "[1, 5 :: real] \<noteq> [] \<and> [1 :: real] \<noteq> [] \<and> [1, 5 :: real] ! 0 = [1] ! 0 \<and>
   Ridge_fit_impl ex_X ex_comm ex_A ex_desc ex_b [1, 5] 2 [0, 0] 7 True False 1
     = Ridge_fit_impl ex_X ex_comm ex_A ex_desc ex_b [1] 1 [0, 0] 7 True False 1"
proof -
  have h: "[1, 5 :: real] \<noteq> []" "[1 :: real] \<noteq> []" "[1, 5 :: real] ! 0 = [1] ! 0"
    by simp_all
  show ?thesis
    using ridge_fit_alpha0_only[OF h, of ex_X ex_comm ex_A ex_desc ex_b 2 "[0, 0]" 7 True False 1 1]
    by simp
qed

subsection \<open>Predictions do not depend on the layout\<close>

text \<open>
  C8. On well-formed arrays predict returns, and the prediction of every row is the
  product of that row with the coefficients plus the intercept: it depends on nothing
  else (not on the caller, the row counts, the old contents of the buffers or the other
  rows). So two calls that are given the same global rows, in whatever layouts, write the
  same predictions row by row; in particular two calls on identical inputs do.
\<close>

theorem predict_rows_independent:
  assumes "wf_predict rank_sizes n_parts input n_cols coef preds"
    and "wf_predict rank_sizes' n_parts' input' n_cols coef preds'"
    and "global_rows rank_sizes n_parts input = global_rows rank_sizes' n_parts' input'"
  shows "\<exists>st st'.
           predict_impl comm rank_sizes n_parts input n_rows n_cols coef intercept preds = Inr st \<and>
           predict_impl comm' rank_sizes' n_parts' input' n_rows' n_cols coef intercept preds'
             = Inr st' \<and>
           global_preds rank_sizes n_parts (preds_of st)
             = map (row_prediction n_cols coef intercept) (global_rows rank_sizes n_parts input) \<and>
           global_preds rank_sizes' n_parts' (preds_of st')
             = global_preds rank_sizes n_parts (preds_of st)"
  using predict_impl_result[OF assms(1)] predict_impl_result[OF assms(2)]
    global_preds_predicted[OF assms(1)] global_preds_predicted[OF assms(2)] assms(3)
  by simp

theorem predict_rows_independent_witness:
  "wf_predict ex_sizes1 2 ex_input1 2 [1, 1] ex_preds1 \<and>
   wf_predict ex_sizes2 1 ex_input2 2 [1, 1] ex_preds2 \<and>
   global_rows ex_sizes1 2 ex_input1 = global_rows ex_sizes2 1 ex_input2 \<and>
   (\<exists>st st'.
      predict_impl ex_comm ex_sizes1 2 ex_input1 3 2 [1, 1] 1 ex_preds1 = Inr st \<and>
      predict_impl ex_comm ex_sizes2 1 ex_input2 3 2 [1, 1] 1 ex_preds2 = Inr st' \<and>
      global_preds ex_sizes1 2 (preds_of st) = [4, 8, 12] \<and>
      global_preds ex_sizes2 1 (preds_of st') = [4, 8, 12])"
proof -
  have h: "wf_predict ex_sizes1 2 ex_input1 2 [1, 1] ex_preds1"
    "wf_predict ex_sizes2 1 ex_input2 2 [1, 1] ex_preds2"
    by (simp_all add: wf_predict_def ex_sizes1_def ex_input1_def ex_preds1_def ex_sizes2_def
        ex_input2_def ex_preds2_def less_Suc_eq numeral_2_eq_2)
  have g: "global_rows ex_sizes1 2 ex_input1 = [[1, 2], [3, 4], [5, 6]]"
    "global_rows ex_sizes2 1 ex_input2 = [[1, 2], [3, 4], [5, 6]]"
    by (simp_all add: global_rows_def block_rows_def ex_sizes1_def ex_input1_def ex_sizes2_def
        ex_input2_def upt_rec[of 0] numeral_2_eq_2 numeral_3_eq_3)
  have e: "global_rows ex_sizes1 2 ex_input1 = global_rows ex_sizes2 1 ex_input2"
    by (simp only: g)
  from predict_rows_independent[OF h e, of ex_comm 3 1 ex_comm 3] obtain st st' where
    run: "predict_impl ex_comm ex_sizes1 2 ex_input1 3 2 [1, 1] 1 ex_preds1 = Inr st"
      "predict_impl ex_comm ex_sizes2 1 ex_input2 3 2 [1, 1] 1 ex_preds2 = Inr st'"
    and rows: "global_preds ex_sizes1 2 (preds_of st)
               = map (row_prediction 2 [1, 1] 1) (global_rows ex_sizes1 2 ex_input1)"
    and same: "global_preds ex_sizes2 1 (preds_of st') = global_preds ex_sizes1 2 (preds_of st)"
    by blast
  have "map (row_prediction 2 [1, 1] 1) [[1, 2], [3, 4], [5, 6]] = [4, 8, 12]"
    by (simp add: row_prediction_def lessThan_Suc numeral_2_eq_2)
  then have "global_preds ex_sizes1 2 (preds_of st) = [4, 8, 12]"
    using rows by (simp only: g)
  then show ?thesis using h e run same by auto
qed

subsection \<open>The reduction inside the ridge solve\<close>




subsection \<open>The stream array of a fit\<close>

text \<open>
  C10. A fit creates as many streams as the calling rank owns blocks, and the inner fit
  reads \<open>streams[0]\<close> before anything else, whatever its other arguments: it fails on that
  read exactly when it is given no stream. So, for OLS and for Ridge alike, the read is out
  of bounds exactly when the calling rank owns no block: a fit requires the caller to own
  at least one block.
\<close>

theorem fit_streams_in_bounds:
  "length (cudaStreamCreate_all (length (blocksOwnedBy input_desc (getRank comm))))
     = length (blocksOwnedBy input_desc (getRank comm)) \<and>
   (snd (OLS_fit_impl_streams X comm input_data input_desc labels coef intercept fit_intercept
           normalize' algo streams n_streams) = Inl (OutOfBounds A_streams)
      \<longleftrightarrow> length streams = 0) \<and>
   (snd (Ridge_fit_impl_streams X comm input_data input_desc labels alpha n_alpha coef intercept
           fit_intercept normalize' algo streams n_streams) = Inl (OutOfBounds A_streams)
      \<longleftrightarrow> length streams = 0) \<and>
   (snd (OLS_fit_impl X comm input_data input_desc labels coef intercept fit_intercept
           normalize' algo) = Inl (OutOfBounds A_streams)
      \<longleftrightarrow> length (blocksOwnedBy input_desc (getRank comm)) = 0) \<and>
   (snd (Ridge_fit_impl X comm input_data input_desc labels alpha n_alpha coef intercept
           fit_intercept normalize' algo) = Inl (OutOfBounds A_streams)
      \<longleftrightarrow> length (blocksOwnedBy input_desc (getRank comm)) = 0)"
proof (intro conjI)
  show "length (cudaStreamCreate_all (length (blocksOwnedBy input_desc (getRank comm))))
     = length (blocksOwnedBy input_desc (getRank comm))"
    by (simp add: cudaStreamCreate_all_def)
  show ols: "snd (OLS_fit_impl_streams X comm input_data input_desc labels coef intercept
           fit_intercept normalize' algo streams n_streams) = Inl (OutOfBounds A_streams)
      \<longleftrightarrow> length streams = 0" for streams n_streams
    by (auto simp: OLS_fit_impl_streams_def Let_def split: prod.splits if_splits)
  show ridge: "snd (Ridge_fit_impl_streams X comm input_data input_desc labels alpha n_alpha coef
           intercept fit_intercept normalize' algo streams n_streams) = Inl (OutOfBounds A_streams)
      \<longleftrightarrow> length streams = 0" for streams n_streams
    using ridgeEig_streams_ok
    by (auto simp: Ridge_fit_impl_streams_def Let_def split: prod.splits if_splits sum.splits)
  show "snd (OLS_fit_impl X comm input_data input_desc labels coef intercept fit_intercept
           normalize' algo) = Inl (OutOfBounds A_streams)
      \<longleftrightarrow> length (blocksOwnedBy input_desc (getRank comm)) = 0"
    by (simp add: OLS_fit_impl_def Let_def ols cudaStreamCreate_all_def)
  show "snd (Ridge_fit_impl X comm input_data input_desc labels alpha n_alpha coef intercept
           fit_intercept normalize' algo) = Inl (OutOfBounds A_streams)
      \<longleftrightarrow> length (blocksOwnedBy input_desc (getRank comm)) = 0"
    by (simp add: Ridge_fit_impl_def Let_def ridge cudaStreamCreate_all_def)
qed

theorem fit_streams_in_bounds_witness:
  "length (blocksOwnedBy ex_desc_other (getRank ex_comm)) = 0 \<and>
   snd (OLS_fit_impl ex_X ex_comm ex_A ex_desc_other ex_b [0, 0] 0 True False 1)
     = Inl (OutOfBounds A_streams) \<and>
   snd (Ridge_fit_impl ex_X ex_comm ex_A ex_desc_other ex_b [1] 1 [0, 0] 0 True False 1)
     = Inl (OutOfBounds A_streams)"
proof -
  have h: "length (blocksOwnedBy ex_desc_other (getRank ex_comm)) = 0"
    by (simp add: blocksOwnedBy_def ex_desc_other_def ex_comm_def)
  show ?thesis
    using fit_streams_in_bounds[of ex_desc_other ex_comm ex_X ex_A ex_b "[0, 0]" 0 True False 1
        "[]" 0 "[1]" 1] h
    by simp
qed

end
